theory Spec2Isabelle
  imports Main "HOL-Library.Char_ord" "HOL-Library.List_Lexorder" "HOL-Library.Sublist"
begin

text \<open>
  The metrics collector of the Gardener metrics exporter (\<open>pkg/metrics/metrics.go\<close>): the
  catalog of metric descriptors, the collector with \<open>Describe\<close> and \<open>Collect\<close>, and its
  registration with the Prometheus registry. The code of the source file is embedded first;
  what the source file calls and does not define (the Prometheus registry, the per-kind
  extractors) follows, each part marked as such.
\<close>

section \<open>Metric names (pkg/metrics/metrics.go, the const block)\<close>

definition metricGardenProjectsStatus :: string where
  "metricGardenProjectsStatus = ''garden_projects_status''"

definition metricGardenUsersSum :: string where
  "metricGardenUsersSum = ''garden_users_total''"

definition metricGardenSeedInfo :: string where
  "metricGardenSeedInfo = ''garden_seed_info''"

definition metricGardenSeedCondition :: string where
  "metricGardenSeedCondition = ''garden_seed_condition''"

definition metricGardenPlantInfo :: string where
  "metricGardenPlantInfo = ''garden_plant_info''"

definition metricGardenPlantCondition :: string where
  "metricGardenPlantCondition = ''garden_plant_condition''"

definition metricGardenShootCondition :: string where
  "metricGardenShootCondition = ''garden_shoot_condition''"

definition metricGardenShootCreation :: string where
  "metricGardenShootCreation = ''garden_shoot_creation_timestamp''"

definition metricGardenShootHibernated :: string where
  "metricGardenShootHibernated = ''garden_shoot_hibernated''"

definition metricGardenShootInfo :: string where
  "metricGardenShootInfo = ''garden_shoot_info''"

definition metricGardenShootNodeMaxTotal :: string where
  "metricGardenShootNodeMaxTotal = ''garden_shoot_node_max_total''"

definition metricGardenShootNodeMinTotal :: string where
  "metricGardenShootNodeMinTotal = ''garden_shoot_node_min_total''"

definition metricGardenShootOperationProgressPercent :: string where
  "metricGardenShootOperationProgressPercent = ''garden_shoot_operation_progress_percent''"

definition metricGardenShootOperationState :: string where
  "metricGardenShootOperationState = ''garden_shoot_operation_states''"

definition metricGardenShootResponseDuration :: string where
  "metricGardenShootResponseDuration = ''garden_shoot_response_duration_milliseconds''"

definition metricGardenOperationsTotal :: string where
  "metricGardenOperationsTotal = ''garden_shoot_operations_total''"

section \<open>Descriptors\<close>

text \<open>
  A \<open>prometheus.Desc\<close> as \<open>prometheus.NewDesc(fqName, help, variableLabels, constLabels)\<close>
  builds it. The constant labels are a Go map from label name to value; every call of this
  program passes \<open>nil\<close>, the empty map.
\<close>

record Desc =
  fqName :: string
  helpText :: string
  variableLabels :: "string list"
  constLabels :: "(string \<times> string) list"

text \<open>
  \<open>NewDesc\<close> also computes three private fields from its arguments, modelled as functions
  of the descriptor. \<open>err\<close> is set when the metric name or a label name is not valid in the
  Prometheus data model, or when a label name occurs twice. \<open>id\<close> hashes the name and the
  constant label values taken in the order of their sorted names; \<open>dimHash\<close> hashes the help
  string and the sorted label names, the variable ones prefixed by \<open>$\<close>. The hashes are
  idealised as injective: the hashed data stands for the hash.
\<close>

definition isLetter :: "char \<Rightarrow> bool" where
  "isLetter c \<longleftrightarrow>
     (let n = (of_char c :: nat) in (65 \<le> n \<and> n \<le> 90) \<or> (97 \<le> n \<and> n \<le> 122))"

definition isDigit :: "char \<Rightarrow> bool" where
  "isDigit c \<longleftrightarrow> (let n = (of_char c :: nat) in 48 \<le> n \<and> n \<le> 57)"

definition IsValidMetricName :: "string \<Rightarrow> bool" where
  "IsValidMetricName n \<longleftrightarrow>
     (case n of [] \<Rightarrow> False
      | b # bs \<Rightarrow> (isLetter b \<or> b = CHR ''_'' \<or> b = CHR '':'') \<and>
          list_all (\<lambda>c. isLetter c \<or> c = CHR ''_'' \<or> c = CHR '':'' \<or> isDigit c) bs)"

definition checkLabelName :: "string \<Rightarrow> bool" where
  "checkLabelName l \<longleftrightarrow>
     (case l of [] \<Rightarrow> False
      | b # bs \<Rightarrow> (isLetter b \<or> b = CHR ''_'') \<and>
          list_all (\<lambda>c. isLetter c \<or> c = CHR ''_'' \<or> isDigit c) bs) \<and>
     take 2 l \<noteq> ''__''"

definition labelNames :: "Desc \<Rightarrow> string list" where
  "labelNames d = sort (map fst (constLabels d)) @ map (\<lambda>l. CHR ''$'' # l) (variableLabels d)"

definition desc_err :: "Desc \<Rightarrow> string option" where
  "desc_err d =
     (if \<not> IsValidMetricName (fqName d) then Some ''not a valid metric name''
      else if \<not> list_all checkLabelName (map fst (constLabels d)) then Some ''not a valid label name''
      else if \<not> list_all checkLabelName (variableLabels d) then Some ''not a valid label name''
      else if \<not> distinct (map fst (constLabels d) @ variableLabels d) then Some ''duplicate label names''
      else None)"

type_synonym descID = "string \<times> string list"

type_synonym dimHash = "string \<times> string list"

definition desc_id :: "Desc \<Rightarrow> descID" where
  "desc_id d = (fqName d, map snd (sort_key fst (constLabels d)))"

definition desc_dimHash :: "Desc \<Rightarrow> dimHash" where
  "desc_dimHash d = (helpText d, sort (labelNames d))"

definition NewDesc :: "string \<Rightarrow> string \<Rightarrow> string list \<Rightarrow> (string \<times> string) list \<Rightarrow> Desc" where
  "NewDesc n h ls cs = \<lparr>fqName = n, helpText = h, variableLabels = ls, constLabels = cs\<rparr>"

section \<open>The metric catalog: getGardenMetricsDefinitions\<close>

definition getGardenMetricsDefinitions :: "string \<rightharpoonup> Desc" where
  "getGardenMetricsDefinitions =
    [ metricGardenOperationsTotal \<mapsto>
        NewDesc metricGardenOperationsTotal ''Count of ongoing operations.''
          [''operation'', ''state'', ''iaas'', ''seed'', ''version'', ''region''] [],
      metricGardenPlantCondition \<mapsto>
        NewDesc metricGardenPlantCondition
          ''Condition state of a Plant. Possible values: -1=Unknown|0=Unhealthy|1=Healthy|2=Progressing''
          [''name'', ''project'', ''condition''] [],
      metricGardenPlantInfo \<mapsto>
        NewDesc metricGardenPlantInfo ''Information about a plant.''
          [''name'', ''project'', ''provider'', ''region'', ''version''] [],
      metricGardenProjectsStatus \<mapsto>
        NewDesc metricGardenProjectsStatus ''Status of projects.''
          [''name'', ''cluster'', ''phase''] [],
      metricGardenSeedCondition \<mapsto>
        NewDesc metricGardenSeedCondition ''Condition state of a Seed.''
          [''name'', ''condition''] [],
      metricGardenSeedInfo \<mapsto>
        NewDesc metricGardenSeedInfo ''Information about a Seed.''
          [''name'', ''namespace'', ''iaas'', ''region'', ''visible'', ''protected''] [],
      metricGardenShootCondition \<mapsto>
        NewDesc metricGardenShootCondition
          ''Condition state of a Shoot. Possible values: -1=Unknown|0=Unhealthy|1=Healthy|2=Progressing''
          [''name'', ''project'', ''condition'', ''operation'', ''purpose'', ''is_seed'', ''iaas'', ''uid''] [],
      metricGardenShootCreation \<mapsto>
        NewDesc metricGardenShootCreation ''Timestamp of the shoot creation.''
          [''name'', ''project'', ''uid''] [],
      metricGardenShootHibernated \<mapsto>
        NewDesc metricGardenShootHibernated ''Hibernation status of a shoot.''
          [''name'', ''project'', ''uid''] [],
      metricGardenShootInfo \<mapsto>
        NewDesc metricGardenShootInfo ''Information about a Shoot.''
          [''name'', ''project'', ''iaas'', ''version'', ''region'', ''seed'', ''is_seed''] [],
      metricGardenShootNodeMaxTotal \<mapsto>
        NewDesc metricGardenShootNodeMaxTotal ''Max node count of a Shoot.''
          [''name'', ''project''] [],
      metricGardenShootNodeMinTotal \<mapsto>
        NewDesc metricGardenShootNodeMinTotal ''Min node count of a Shoot.''
          [''name'', ''project''] [],
      metricGardenShootOperationProgressPercent \<mapsto>
        NewDesc metricGardenShootOperationProgressPercent ''Operation progress percent of a Shoot.''
          [''name'', ''project'', ''operation''] [],
      metricGardenShootOperationState \<mapsto>
        NewDesc metricGardenShootOperationState ''Operation state of a Shoot.''
          [''name'', ''project'', ''operation''] [],
      metricGardenShootResponseDuration \<mapsto>
        NewDesc metricGardenShootResponseDuration
          ''Response time of the Shoot API server. Not provided when not reachable.''
          [''name'', ''project''] [],
      metricGardenUsersSum \<mapsto>
        NewDesc metricGardenUsersSum ''Count of users.'' [''kind''] [] ]"

section \<open>The collector\<close>

text \<open>
  The informers and the logger are handles of other packages; the collector only stores
  them, so their types are parameters.
\<close>

record ('sh, 'se, 'pr, 'pl, 'lg) gardenMetricsCollector =
  shootInformer :: 'sh
  seedInformer :: 'se
  projectInformer :: 'pr
  plantInformer :: 'pl
  descs :: "string \<rightharpoonup> Desc"
  logger :: 'lg

subsection \<open>Describe\<close>

text \<open>
  A Go \<open>for ... range\<close> over a map visits every key exactly once, in an order the language
  leaves unspecified and that may differ from one loop to the next. The order the runtime
  picks for one loop is the argument \<open>ks\<close> of the loop; \<open>range_order m ks\<close> says that
  \<open>ks\<close> is an order the runtime may pick for the map \<open>m\<close>.
\<close>

definition range_order :: "('k \<rightharpoonup> 'v) \<Rightarrow> 'k list \<Rightarrow> bool" where
  "range_order m ks \<longleftrightarrow> distinct ks \<and> set ks = dom m"

text \<open>
  A channel is the list of the values sent on it so far; \<open>ch <- v\<close> appends \<open>v\<close>.
  \<open>range_send m ks ch\<close> is the loop \<open>for _, desc := range m { ch <- desc }\<close>.
\<close>

fun range_send :: "('k \<rightharpoonup> 'v) \<Rightarrow> 'k list \<Rightarrow> 'v list \<Rightarrow> 'v list" where
  "range_send m [] ch = ch"
| "range_send m (k # ks) ch =
     (case m k of None \<Rightarrow> range_send m ks ch | Some desc \<Rightarrow> range_send m ks (ch @ [desc]))"

text \<open>
  Modelled from the spec: \<open>registerShootCustomizationMetrics\<close> is called by \<open>Describe\<close> and
  defined in a file that is not among the sources. The spec has it emit the
  dynamically-registered customization descriptors; \<open>cust\<close> is the list of them, in the
  order they are sent.
\<close>

definition registerShootCustomizationMetrics :: "Desc list \<Rightarrow> Desc list \<Rightarrow> Desc list" where
  "registerShootCustomizationMetrics cust ch = ch @ cust"

text \<open>
  \<open>Describe\<close> has a pointer receiver, so it could change the collector: the model returns
  the collector with the channel.
\<close>

definition Describe ::
  "string list \<Rightarrow> Desc list \<Rightarrow> ('sh, 'se, 'pr, 'pl, 'lg) gardenMetricsCollector \<Rightarrow> Desc list \<Rightarrow>
     ('sh, 'se, 'pr, 'pl, 'lg) gardenMetricsCollector \<times> Desc list" where
  "Describe ks cust c ch =
     (let ch1 = range_send (descs c) ks ch;
          ch2 = registerShootCustomizationMetrics cust ch1
      in (c, ch2))"

subsection \<open>Collect\<close>

datatype kind = ProjectKind | ShootKind | SeedKind | PlantKind

text \<open>
  The four extractors \<open>collectProjectMetrics\<close>, \<open>collectShootMetrics\<close>,
  \<open>collectSeedMetrics\<close> and \<open>collectPlantMetrics\<close> are methods of the collector defined in
  files that are not among the sources: \<open>Collect\<close> takes them as parameters. An extractor
  receives the send-only channel, so all it can do to the channel is send: it is a function
  from the collector and the rest of the process state \<open>'w\<close> (the caches behind the
  informers, the failure counter, the log) to the samples it sends, in order, and the state
  it leaves.
\<close>

record ('c, 'm, 'w) extractors =
  collectProjectMetrics :: "'c \<Rightarrow> 'w \<Rightarrow> 'm list \<times> 'w"
  collectShootMetrics :: "'c \<Rightarrow> 'w \<Rightarrow> 'm list \<times> 'w"
  collectSeedMetrics :: "'c \<Rightarrow> 'w \<Rightarrow> 'm list \<times> 'w"
  collectPlantMetrics :: "'c \<Rightarrow> 'w \<Rightarrow> 'm list \<times> 'w"

text \<open>
  The state of one scrape: the samples sent on the output channel, the rest of the process
  state, and the trace of the extractors invoked so far.
\<close>

record ('m, 'w) scrape =
  sent :: "'m list"
  world :: 'w
  invoked :: "kind list"

definition invoke :: "kind \<Rightarrow> ('w \<Rightarrow> 'm list \<times> 'w) \<Rightarrow> ('m, 'w) scrape \<Rightarrow> ('m, 'w) scrape" where
  "invoke k ext s =
     (case ext (world s) of
        (ms, w) \<Rightarrow> \<lparr>sent = sent s @ ms, world = w, invoked = invoked s @ [k]\<rparr>)"

definition Collect :: "('c, 'm, 'w) extractors \<Rightarrow> 'c \<Rightarrow> ('m, 'w) scrape \<Rightarrow> ('m, 'w) scrape" where
  "Collect e c s0 =
     (let s1 = invoke ProjectKind (collectProjectMetrics e c) s0;
          s2 = invoke ShootKind (collectShootMetrics e c) s1;
          s3 = invoke SeedKind (collectSeedMetrics e c) s2;
          s4 = invoke PlantKind (collectPlantMetrics e c) s3
      in s4)"

section \<open>Registration\<close>

text \<open>
  \<open>prometheus.MustRegister\<close> registers with the default registry of the Prometheus client
  library and panics when \<open>Register\<close> returns an error. The registry is modelled after the
  library's \<open>Registry.Register\<close>: it reads the descriptors the collector's \<open>Describe\<close> sends,
  rejects an invalid descriptor, a descriptor whose name is already registered with
  another help string or other label names, a collector equal to one already registered
  (the same set of descriptor ids), and a collector that brings a descriptor id already
  registered. A collector id is the XOR of the ids of its descriptors, each taken once;
  it is idealised as the set of those ids.
\<close>

datatype error =
  InvalidDescriptor Desc
  | InconsistentDescriptor Desc
  | AlreadyRegisteredError
  | DuplicateDescriptor Desc

record 'c Registry =
  collectorsByID :: "descID set \<rightharpoonup> 'c"
  descIDs :: "descID set"
  dimHashesByName :: "string \<rightharpoonup> dimHash"
  uncheckedCollectors :: "'c list"

record checks =
  newDescIDs :: "descID set"
  newDimHashesByName :: "string \<rightharpoonup> dimHash"
  duplicateDescErr :: "error option"

definition no_checks :: checks where
  "no_checks = \<lparr>newDescIDs = {}, newDimHashesByName = Map.empty, duplicateDescErr = None\<rparr>"

text \<open>The loop of \<open>Register\<close> over the descriptors received from \<open>Describe\<close>.\<close>

fun checkDescs :: "'c Registry \<Rightarrow> Desc list \<Rightarrow> checks \<Rightarrow> error + checks" where
  "checkDescs r [] a = Inr a"
| "checkDescs r (desc # ds) a =
     (if desc_err desc \<noteq> None then Inl (InvalidDescriptor desc)
      else
        let a1 = (if desc_id desc \<in> descIDs r
                  then a\<lparr>duplicateDescErr := Some (DuplicateDescriptor desc)\<rparr> else a);
            a2 = a1\<lparr>newDescIDs := insert (desc_id desc) (newDescIDs a1)\<rparr>
        in case dimHashesByName r (fqName desc) of
             Some h \<Rightarrow>
               if h \<noteq> desc_dimHash desc then Inl (InconsistentDescriptor desc)
               else checkDescs r ds a2
           | None \<Rightarrow>
               (case newDimHashesByName a2 (fqName desc) of
                  Some h \<Rightarrow>
                    if h \<noteq> desc_dimHash desc then Inl (InconsistentDescriptor desc)
                    else checkDescs r ds a2
                | None \<Rightarrow>
                    checkDescs r ds
                      (a2\<lparr>newDimHashesByName :=
                            (newDimHashesByName a2)(fqName desc \<mapsto> desc_dimHash desc)\<rparr>)))"

definition Register :: "'c \<Rightarrow> Desc list \<Rightarrow> 'c Registry \<Rightarrow> error + 'c Registry" where
  "Register c ds r =
     (case checkDescs r ds no_checks of
        Inl e \<Rightarrow> Inl e
      | Inr a \<Rightarrow>
          if newDescIDs a = {} then Inr (r\<lparr>uncheckedCollectors := uncheckedCollectors r @ [c]\<rparr>)
          else if collectorsByID r (newDescIDs a) \<noteq> None then Inl AlreadyRegisteredError
          else (case duplicateDescErr a of
                  Some e \<Rightarrow> Inl e
                | None \<Rightarrow>
                    Inr (r\<lparr>collectorsByID := (collectorsByID r)(newDescIDs a \<mapsto> c),
                           descIDs := descIDs r \<union> newDescIDs a,
                           dimHashesByName := dimHashesByName r ++ newDimHashesByName a\<rparr>)))"

text \<open>
  \<open>MustRegister\<close> with one collector: the first component is the value the call panics
  with, \<open>None\<close> when it returns; the second is the registry it leaves.
\<close>

definition MustRegister :: "'c \<Rightarrow> Desc list \<Rightarrow> 'c Registry \<Rightarrow> error option \<times> 'c Registry" where
  "MustRegister c ds r = (case Register c ds r of Inl e \<Rightarrow> (Some e, r) | Inr r' \<Rightarrow> (None, r'))"

text \<open>
  The two collectors this program registers. \<open>ScrapeFailures\<close> is a package variable
  declared in a file that is not among the sources, a counter with labels; the one
  descriptor its \<open>Describe\<close> sends is the parameter \<open>sf\<close> of \<open>SetupMetricsCollector\<close>.
  The other parameters that are not arguments of the Go function are the order \<open>ks\<close> in
  which \<open>Describe\<close> ranges over the catalog during the registration and the customization
  descriptors \<open>cust\<close> it sends.
\<close>

datatype ('sh, 'se, 'pr, 'pl, 'lg) Collector =
  GardenMetrics "('sh, 'se, 'pr, 'pl, 'lg) gardenMetricsCollector"
  | ScrapeFailures

definition SetupMetricsCollector ::
  "string list \<Rightarrow> Desc list \<Rightarrow> Desc \<Rightarrow> 'sh \<Rightarrow> 'se \<Rightarrow> 'pr \<Rightarrow> 'pl \<Rightarrow> 'lg \<Rightarrow>
     ('sh, 'se, 'pr, 'pl, 'lg) Collector Registry \<Rightarrow>
     error option \<times> ('sh, 'se, 'pr, 'pl, 'lg) Collector Registry" where
  "SetupMetricsCollector ks cust sf shootInf seedInf projectInf plantInf lg r =
     (let metricsCollector =
            \<lparr>shootInformer = shootInf, seedInformer = seedInf, projectInformer = projectInf,
             plantInformer = plantInf, descs = getGardenMetricsDefinitions, logger = lg\<rparr>
      in case MustRegister (GardenMetrics metricsCollector)
                (snd (Describe ks cust metricsCollector [])) r of
           (Some e, r1) \<Rightarrow> (Some e, r1)
         | (None, r1) \<Rightarrow> MustRegister ScrapeFailures [sf] r1)"

section \<open>The per-kind extractors\<close>

text \<open>
  The extractors are defined in files that are not among the sources. Every definition of
  this section is modelled from the spec (its sections 3, 4.2 and 8), with the metric names
  and the label lists of the catalog above.
\<close>

subsection \<open>Resources\<close>

text \<open>
  Modelled from the spec: a Condition is a named health dimension with a status; the status
  is kept as the raw string.
\<close>

record Condition =
  cond_name :: string
  cond_status :: string

text \<open>
  Modelled from the spec: the last or ongoing Operation of a Shoot, with its type, state
  and progress percent.
\<close>

record Operation =
  op_type :: string
  op_state :: string
  op_progress :: int

text \<open>
  Modelled from the spec: a worker pool of a Shoot, with its configured maximum and minimum
  node counts.
\<close>

record WorkerPool =
  pool_maximum :: nat
  pool_minimum :: nat

text \<open>
  Modelled from the spec: a Shoot with the attributes the core uses. The spec's data model
  does not list the purpose; the catalog has a label for it, so it is an attribute here.
  The operation and the measured response duration are optional.
\<close>

record Shoot =
  shoot_name :: string
  shoot_project :: string
  shoot_iaas :: string
  shoot_region :: string
  shoot_version :: string
  shoot_seed :: string
  shoot_purpose :: string
  shoot_hibernated :: bool
  shoot_creation :: int
  shoot_conditions :: "Condition list"
  shoot_operation :: "Operation option"
  shoot_is_seed :: bool
  shoot_uid :: string
  shoot_response_duration :: "int option"
  shoot_workers :: "WorkerPool list"

text \<open>Modelled from the spec: a Seed with the attributes the core uses.\<close>

record Seed =
  seed_name :: string
  seed_namespace :: string
  seed_provider :: string
  seed_region :: string
  seed_visible :: bool
  seed_protected :: bool
  seed_conditions :: "Condition list"

text \<open>Modelled from the spec: a Plant with the attributes the core uses.\<close>

record Plant =
  plant_name :: string
  plant_project :: string
  plant_provider :: string
  plant_region :: string
  plant_version :: string
  plant_conditions :: "Condition list"

text \<open>
  Modelled from the spec: a Sample is a (metric name, label values, numeric value) triple.
  Every value the spec derives is integral.
\<close>

record Sample =
  metric :: string
  labelValues :: "string list"
  val :: int

subsection \<open>Conditions\<close>

text \<open>
  Modelled from the spec: the mapping of a condition's status string to its value, which
  is absent from the sources. The spec asks for a closed variant type of the four states
  and a total mapping from raw status strings that defaults to Unknown; the status strings
  are the state names of the spec and of the catalog's help texts.
\<close>

datatype ConditionState = Unknown | Unhealthy | Healthy | Progressing

definition parseStatus :: "string \<Rightarrow> ConditionState" where
  "parseStatus s =
     (if s = ''Unhealthy'' then Unhealthy
      else if s = ''Healthy'' then Healthy
      else if s = ''Progressing'' then Progressing
      else Unknown)"

fun stateValue :: "ConditionState \<Rightarrow> int" where
  "stateValue Unknown = -1"
| "stateValue Unhealthy = 0"
| "stateValue Healthy = 1"
| "stateValue Progressing = 2"

definition conditionValue :: "string \<Rightarrow> int" where
  "conditionValue s = stateValue (parseStatus s)"

text \<open>
  Modelled from the spec: a flag as a label value. The spec does not give the strings;
  they are Go's \<open>true\<close> and \<open>false\<close>.
\<close>

definition formatBool :: "bool \<Rightarrow> string" where
  "formatBool b = (if b then ''true'' else ''false'')"

subsection \<open>Samples of one Shoot\<close>

text \<open>
  Modelled from the spec: condition emission, one sample per Condition, valued by the
  status, labelled with the condition name. The \<open>operation\<close> label is the type of the
  Shoot's operation, empty when it has none.
\<close>

definition shootOperationType :: "Shoot \<Rightarrow> string" where
  "shootOperationType s = (case shoot_operation s of None \<Rightarrow> [] | Some op \<Rightarrow> op_type op)"

definition shootConditionSample :: "Shoot \<Rightarrow> Condition \<Rightarrow> Sample" where
  "shootConditionSample s c =
     \<lparr>metric = metricGardenShootCondition,
      labelValues = [shoot_name s, shoot_project s, cond_name c, shootOperationType s,
                     shoot_purpose s, formatBool (shoot_is_seed s), shoot_iaas s, shoot_uid s],
      val = conditionValue (cond_status c)\<rparr>"

text \<open>Modelled from the spec: info emission, exactly one sample per resource, value 1.\<close>

definition shootInfoSample :: "Shoot \<Rightarrow> Sample" where
  "shootInfoSample s =
     \<lparr>metric = metricGardenShootInfo,
      labelValues = [shoot_name s, shoot_project s, shoot_iaas s, shoot_version s,
                     shoot_region s, shoot_seed s, formatBool (shoot_is_seed s)],
      val = 1\<rparr>"

text \<open>
  Modelled from the spec: the spec lists the creation timestamp and the hibernation flag
  among the per-shoot metrics and gives their labels, without a rule; they are one sample
  per Shoot, valued by the attribute.
\<close>

definition shootCreationSample :: "Shoot \<Rightarrow> Sample" where
  "shootCreationSample s =
     \<lparr>metric = metricGardenShootCreation,
      labelValues = [shoot_name s, shoot_project s, shoot_uid s],
      val = shoot_creation s\<rparr>"

definition shootHibernatedSample :: "Shoot \<Rightarrow> Sample" where
  "shootHibernatedSample s =
     \<lparr>metric = metricGardenShootHibernated,
      labelValues = [shoot_name s, shoot_project s, shoot_uid s],
      val = (if shoot_hibernated s then 1 else 0)\<rparr>"

text \<open>
  Modelled from the spec: node bounds, the sums of the configured maximum and minimum node
  counts over the worker pools; no sample for a Shoot without worker pools.
\<close>

definition shootNodeSamples :: "Shoot \<Rightarrow> Sample list" where
  "shootNodeSamples s =
     (if shoot_workers s = [] then []
      else [\<lparr>metric = metricGardenShootNodeMaxTotal,
              labelValues = [shoot_name s, shoot_project s],
              val = int (sum_list (map pool_maximum (shoot_workers s)))\<rparr>,
            \<lparr>metric = metricGardenShootNodeMinTotal,
              labelValues = [shoot_name s, shoot_project s],
              val = int (sum_list (map pool_minimum (shoot_workers s)))\<rparr>])"

text \<open>
  Modelled from the spec: operation state and progress, only for a Shoot with an
  operation. The spec does not fix the number that stands for a state: \<open>sv\<close> is that
  encoding.
\<close>

definition shootOperationSamples :: "(string \<Rightarrow> int) \<Rightarrow> Shoot \<Rightarrow> Sample list" where
  "shootOperationSamples sv s =
     (case shoot_operation s of
        None \<Rightarrow> []
      | Some op \<Rightarrow>
          [\<lparr>metric = metricGardenShootOperationState,
            labelValues = [shoot_name s, shoot_project s, op_type op],
            val = sv (op_state op)\<rparr>,
           \<lparr>metric = metricGardenShootOperationProgressPercent,
            labelValues = [shoot_name s, shoot_project s, op_type op],
            val = op_progress op\<rparr>])"

text \<open>Modelled from the spec: response duration, only when a duration was measured.\<close>

definition shootResponseSamples :: "Shoot \<Rightarrow> Sample list" where
  "shootResponseSamples s =
     (case shoot_response_duration s of
        None \<Rightarrow> []
      | Some d \<Rightarrow>
          [\<lparr>metric = metricGardenShootResponseDuration,
            labelValues = [shoot_name s, shoot_project s],
            val = d\<rparr>])"

text \<open>
  Modelled from the spec: the per-shoot samples of one Shoot: its conditions, then info,
  creation timestamp and hibernation, node bounds, operation, response duration. The spec
  does not order them.
\<close>

definition shootSamples :: "(string \<Rightarrow> int) \<Rightarrow> Shoot \<Rightarrow> Sample list" where
  "shootSamples sv s =
     map (shootConditionSample s) (shoot_conditions s)
     @ [shootInfoSample s, shootCreationSample s, shootHibernatedSample s]
     @ shootNodeSamples s
     @ shootOperationSamples sv s
     @ shootResponseSamples s"

subsection \<open>Samples of one Seed and of one Plant\<close>

text \<open>
  Modelled from the spec: condition emission and info emission for a Seed, with the labels
  of the catalog.
\<close>

definition seedConditionSample :: "Seed \<Rightarrow> Condition \<Rightarrow> Sample" where
  "seedConditionSample s c =
     \<lparr>metric = metricGardenSeedCondition,
      labelValues = [seed_name s, cond_name c],
      val = conditionValue (cond_status c)\<rparr>"

definition seedInfoSample :: "Seed \<Rightarrow> Sample" where
  "seedInfoSample s =
     \<lparr>metric = metricGardenSeedInfo,
      labelValues = [seed_name s, seed_namespace s, seed_provider s, seed_region s,
                     formatBool (seed_visible s), formatBool (seed_protected s)],
      val = 1\<rparr>"

definition seedSamples :: "Seed \<Rightarrow> Sample list" where
  "seedSamples s = map (seedConditionSample s) (seed_conditions s) @ [seedInfoSample s]"

text \<open>
  Modelled from the spec: condition emission and info emission for a Plant, with the labels
  of the catalog.
\<close>

definition plantConditionSample :: "Plant \<Rightarrow> Condition \<Rightarrow> Sample" where
  "plantConditionSample p c =
     \<lparr>metric = metricGardenPlantCondition,
      labelValues = [plant_name p, plant_project p, cond_name c],
      val = conditionValue (cond_status c)\<rparr>"

definition plantInfoSample :: "Plant \<Rightarrow> Sample" where
  "plantInfoSample p =
     \<lparr>metric = metricGardenPlantInfo,
      labelValues = [plant_name p, plant_project p, plant_provider p, plant_region p,
                     plant_version p],
      val = 1\<rparr>"

definition plantSamples :: "Plant \<Rightarrow> Sample list" where
  "plantSamples p = map (plantConditionSample p) (plant_conditions p) @ [plantInfoSample p]"

subsection \<open>Failure isolation\<close>

text \<open>
  Modelled from the spec: an object of a snapshot is either well formed, with the
  attributes of its kind, or malformed (a malformed field, a nil reference), in which case
  processing it raises a data error with a reason. The Scrape-Failure Counter is a counter
  per (kind, reason) pair of label values.
\<close>

datatype 'a object = Wellformed 'a | Malformed string

type_synonym failures = "string \<times> string \<Rightarrow> nat"

text \<open>Modelled from the spec: one increment of the counter at the labels (kind, reason).\<close>

definition increment :: "string \<Rightarrow> string \<Rightarrow> failures \<Rightarrow> failures" where
  "increment k reason fl = fl((k, reason) := Suc (fl (k, reason)))"

text \<open>
  Modelled from the spec: the loop of an extractor over its snapshot. A malformed object
  is skipped and counted, and the loop goes on with the remaining objects.
\<close>

fun extractEach :: "string \<Rightarrow> ('a \<Rightarrow> Sample list) \<Rightarrow> 'a object list \<Rightarrow> failures \<Rightarrow> Sample list \<times> failures" where
  "extractEach k f [] fl = ([], fl)"
| "extractEach k f (Wellformed x # xs) fl =
     (case extractEach k f xs fl of (out, fl') \<Rightarrow> (f x @ out, fl'))"
| "extractEach k f (Malformed reason # xs) fl = extractEach k f xs (increment k reason fl)"

text \<open>Modelled from the spec: the objects of a snapshot that can be processed.\<close>

fun wellformed :: "'a object list \<Rightarrow> 'a list" where
  "wellformed [] = []"
| "wellformed (Wellformed x # xs) = x # wellformed xs"
| "wellformed (Malformed reason # xs) = wellformed xs"

subsection \<open>The aggregate over the Shoots\<close>

text \<open>
  Modelled from the spec: one sample per distinct (operation type, state, iaas, seed,
  version, region) combination observed across the Shoots of the snapshot that do not act
  as a Seed, valued by the number of those Shoots that show the combination. A Shoot
  without an operation shows no combination.
\<close>

definition operationCombination :: "Shoot \<Rightarrow> string list option" where
  "operationCombination s =
     (case shoot_operation s of
        None \<Rightarrow> None
      | Some op \<Rightarrow>
          Some [op_type op, op_state op, shoot_iaas s, shoot_seed s, shoot_version s,
                shoot_region s])"

definition operationsTotal :: "Shoot list \<Rightarrow> Sample list" where
  "operationsTotal shoots =
     (let cs = List.map_filter operationCombination (filter (\<lambda>s. \<not> shoot_is_seed s) shoots)
      in map (\<lambda>c. \<lparr>metric = metricGardenOperationsTotal, labelValues = c,
                    val = int (count_list cs c)\<rparr>) (remdups cs))"

subsection \<open>The three extractors\<close>

text \<open>
  Modelled from the spec: the extractors for Shoots, Seeds and Plants, each a function of
  its snapshot and of the failure counter. The Shoot extractor emits the per-shoot samples
  and then the aggregate. The spec gives no derivation rule for Projects.
\<close>

definition shootExtractor :: "(string \<Rightarrow> int) \<Rightarrow> Shoot object list \<Rightarrow> failures \<Rightarrow> Sample list \<times> failures" where
  "shootExtractor sv snapshot fl =
     (case extractEach ''shoot'' (shootSamples sv) snapshot fl of
        (out, fl') \<Rightarrow> (out @ operationsTotal (wellformed snapshot), fl'))"

definition seedExtractor :: "Seed object list \<Rightarrow> failures \<Rightarrow> Sample list \<times> failures" where
  "seedExtractor snapshot fl = extractEach ''seed'' seedSamples snapshot fl"

definition plantExtractor :: "Plant object list \<Rightarrow> failures \<Rightarrow> Sample list \<times> failures" where
  "plantExtractor snapshot fl = extractEach ''plant'' plantSamples snapshot fl"

section \<open>The required metrics of the spec\<close>

text \<open>
  Modelled from the spec: the table of required metrics (section 4.1), row by row, with the
  row of the two node totals written out as two. The spec gives the names normalized:
  \<open>exposedName\<close> is the name under which the catalog exposes a name of the table, the
  prefix \<open>garden_\<close> for all of them and one more segment \<open>shoot_\<close> for \<open>operations_total\<close>.
\<close>

definition requiredMetrics :: "(string \<times> string list) list" where
  "requiredMetrics =
    [ (''operations_total'', [''operation'', ''state'', ''iaas'', ''seed'', ''version'', ''region'']),
      (''plant_condition'', [''name'', ''project'', ''condition'']),
      (''plant_info'', [''name'', ''project'', ''provider'', ''region'', ''version'']),
      (''projects_status'', [''name'', ''cluster'', ''phase'']),
      (''seed_condition'', [''name'', ''condition'']),
      (''seed_info'', [''name'', ''namespace'', ''iaas'', ''region'', ''visible'', ''protected'']),
      (''shoot_condition'',
         [''name'', ''project'', ''condition'', ''operation'', ''purpose'', ''is_seed'', ''iaas'', ''uid'']),
      (''shoot_creation_timestamp'', [''name'', ''project'', ''uid'']),
      (''shoot_hibernated'', [''name'', ''project'', ''uid'']),
      (''shoot_info'', [''name'', ''project'', ''iaas'', ''version'', ''region'', ''seed'', ''is_seed'']),
      (''shoot_node_max_total'', [''name'', ''project'']),
      (''shoot_node_min_total'', [''name'', ''project'']),
      (''shoot_operation_progress_percent'', [''name'', ''project'', ''operation'']),
      (''shoot_operation_states'', [''name'', ''project'', ''operation'']),
      (''shoot_response_duration_milliseconds'', [''name'', ''project'']),
      (''users_total'', [''kind'']) ]"

definition exposedName :: "string \<Rightarrow> string" where
  "exposedName n = (if n = ''operations_total'' then ''garden_shoot_'' @ n else ''garden_'' @ n)"

text \<open>The keys of the map literal of \<open>getGardenMetricsDefinitions\<close>, in the order written.\<close>

definition catalogKeys :: "string list" where
  "catalogKeys =
     [metricGardenOperationsTotal, metricGardenPlantCondition, metricGardenPlantInfo,
      metricGardenProjectsStatus, metricGardenSeedCondition, metricGardenSeedInfo,
      metricGardenShootCondition, metricGardenShootCreation, metricGardenShootHibernated,
      metricGardenShootInfo, metricGardenShootNodeMaxTotal, metricGardenShootNodeMinTotal,
      metricGardenShootOperationProgressPercent, metricGardenShootOperationState,
      metricGardenShootResponseDuration, metricGardenUsersSum]"

section \<open>Example inputs\<close>

text \<open>Concrete inputs, on which the theorems below are instantiated.\<close>

definition exampleCollector :: "(unit, unit, unit, unit, unit) gardenMetricsCollector" where
  "exampleCollector =
     \<lparr>shootInformer = (), seedInformer = (), projectInformer = (), plantInformer = (),
      descs = getGardenMetricsDefinitions, logger = ()\<rparr>"

definition exampleScrapeFailures :: Desc where
  "exampleScrapeFailures =
     NewDesc ''garden_scrape_failure_total'' ''Total count of scraping failures.'' [''kind''] []"

definition exampleCustomization :: "Desc list" where
  "exampleCustomization =
     [NewDesc ''garden_shoot_customization_total'' ''Count of customized shoots.'' [''name''] []]"

definition emptyRegistry :: "'c Registry" where
  "emptyRegistry =
     \<lparr>collectorsByID = Map.empty, descIDs = {}, dimHashesByName = Map.empty,
      uncheckedCollectors = []\<rparr>"

definition exampleExtractors :: "(unit, nat, nat) extractors" where
  "exampleExtractors =
     \<lparr>collectProjectMetrics = (\<lambda>c w. ([w], w + 1)),
      collectShootMetrics = (\<lambda>c w. ([w], 2 * w)),
      collectSeedMetrics = (\<lambda>c w. ([w], w + 3)),
      collectPlantMetrics = (\<lambda>c w. ([w], w * w))\<rparr>"

definition exampleShoot :: "string \<Rightarrow> bool \<Rightarrow> Condition list \<Rightarrow> Shoot" where
  "exampleShoot n actsAsSeed cs =
     \<lparr>shoot_name = n, shoot_project = ''garden-dev'', shoot_iaas = ''aws'',
      shoot_region = ''eu-west-1'', shoot_version = ''1.18.2'', shoot_seed = ''aws-eu1'',
      shoot_purpose = ''evaluation'', shoot_hibernated = False, shoot_creation = 1577836800,
      shoot_conditions = cs,
      shoot_operation = Some \<lparr>op_type = ''Reconcile'', op_state = ''Succeeded'', op_progress = 100\<rparr>,
      shoot_is_seed = actsAsSeed, shoot_uid = n @ ''-uid'', shoot_response_duration = Some 12,
      shoot_workers = [\<lparr>pool_maximum = 5, pool_minimum = 2\<rparr>]\<rparr>"

definition examplePlant :: "string \<Rightarrow> Plant" where
  "examplePlant n =
     \<lparr>plant_name = n, plant_project = ''garden-dev'', plant_provider = ''gce'',
      plant_region = ''europe-west1'', plant_version = ''1.17.4'',
      plant_conditions = [\<lparr>cond_name = ''APIServerAvailable'', cond_status = ''Healthy''\<rparr>]\<rparr>"

definition exampleSeed :: "string \<Rightarrow> Seed" where
  "exampleSeed n =
     \<lparr>seed_name = n, seed_namespace = ''garden'', seed_provider = ''aws'',
      seed_region = ''eu-west-1'', seed_visible = True, seed_protected = False,
      seed_conditions = [\<lparr>cond_name = ''GardenletReady'', cond_status = ''Progressing''\<rparr>]\<rparr>"

definition exampleConditions :: "Condition list" where
  "exampleConditions =
     [\<lparr>cond_name = ''APIServerAvailable'', cond_status = ''Healthy''\<rparr>,
      \<lparr>cond_name = ''EveryNodeReady'', cond_status = ''Degraded''\<rparr>]"

definition noFailures :: failures where
  "noFailures = (\<lambda>l. 0)"

section \<open>Properties of the catalog\<close>

lemmas metric_names =
  metricGardenProjectsStatus_def metricGardenUsersSum_def metricGardenSeedInfo_def
  metricGardenSeedCondition_def metricGardenPlantInfo_def metricGardenPlantCondition_def
  metricGardenShootCondition_def metricGardenShootCreation_def metricGardenShootHibernated_def
  metricGardenShootInfo_def metricGardenShootNodeMaxTotal_def metricGardenShootNodeMinTotal_def
  metricGardenShootOperationProgressPercent_def metricGardenShootOperationState_def
  metricGardenShootResponseDuration_def metricGardenOperationsTotal_def

lemma distinct_catalogKeys: "distinct catalogKeys"
  by (simp add: catalogKeys_def metric_names)

lemma dom_catalog: "dom getGardenMetricsDefinitions = set catalogKeys"
  by (simp add: getGardenMetricsDefinitions_def catalogKeys_def insert_commute)

lemma card_catalog: "card (dom getGardenMetricsDefinitions) = 16"
  using distinct_catalogKeys by (simp add: dom_catalog distinct_card) (simp add: catalogKeys_def)

lemma catalog_fqName: "getGardenMetricsDefinitions k = Some d \<Longrightarrow> fqName d = k"
  by (auto simp: getGardenMetricsDefinitions_def NewDesc_def split: if_splits)

lemma catalogKeys_prefix: "k \<in> set catalogKeys \<Longrightarrow> prefix ''garden_'' k"
  by (auto simp: catalogKeys_def metric_names)

lemma required_labels:
  "\<forall>(n, ls) \<in> set requiredMetrics.
     \<exists>d. getGardenMetricsDefinitions (exposedName n) = Some d \<and> variableLabels d = ls"
  by (simp add: requiredMetrics_def exposedName_def getGardenMetricsDefinitions_def
      metric_names NewDesc_def)

lemma required_names: "exposedName ` fst ` set requiredMetrics = set catalogKeys"
  by (simp add: requiredMetrics_def exposedName_def catalogKeys_def metric_names insert_commute)

text \<open>
  Claim C1. For every metric name of the spec's table of required metrics, the map
  returned by \<open>getGardenMetricsDefinitions\<close> holds, under the exposed name, a descriptor
  whose list of label names is the listed one; the keys of the map are the exposed names of
  the table and no others, and there are sixteen of them.
\<close>

theorem catalog_matches_required_metrics:
  "(\<forall>(n, ls) \<in> set requiredMetrics.
      \<exists>d. getGardenMetricsDefinitions (exposedName n) = Some d \<and> variableLabels d = ls)
   \<and> dom getGardenMetricsDefinitions = exposedName ` fst ` set requiredMetrics
   \<and> card (dom getGardenMetricsDefinitions) = 16
   \<and> length requiredMetrics = 16"
  using required_labels required_names dom_catalog card_catalog
  by (simp add: requiredMetrics_def)

theorem catalog_matches_required_metrics_witness:
  "(''shoot_condition'',
      [''name'', ''project'', ''condition'', ''operation'', ''purpose'', ''is_seed'', ''iaas'', ''uid''])
     \<in> set requiredMetrics
   \<and> (\<exists>d. getGardenMetricsDefinitions ''garden_shoot_condition'' = Some d
          \<and> variableLabels d =
              [''name'', ''project'', ''condition'', ''operation'', ''purpose'', ''is_seed'', ''iaas'', ''uid''])
   \<and> (''operations_total'', [''operation'', ''state'', ''iaas'', ''seed'', ''version'', ''region''])
     \<in> set requiredMetrics
   \<and> (\<exists>d. getGardenMetricsDefinitions ''garden_shoot_operations_total'' = Some d
          \<and> variableLabels d = [''operation'', ''state'', ''iaas'', ''seed'', ''version'', ''region''])"
proof -
  have m1: "(''shoot_condition'',
      [''name'', ''project'', ''condition'', ''operation'', ''purpose'', ''is_seed'', ''iaas'', ''uid''])
     \<in> set requiredMetrics"
    by (simp add: requiredMetrics_def)
  have m2: "(''operations_total'', [''operation'', ''state'', ''iaas'', ''seed'', ''version'', ''region''])
     \<in> set requiredMetrics"
    by (simp add: requiredMetrics_def)
  have all: "\<forall>(n, ls) \<in> set requiredMetrics.
      \<exists>d. getGardenMetricsDefinitions (exposedName n) = Some d \<and> variableLabels d = ls"
    using catalog_matches_required_metrics by (rule conjunct1)
  from bspec [OF all m1] have a: "\<exists>d. getGardenMetricsDefinitions (exposedName ''shoot_condition'') = Some d
      \<and> variableLabels d =
          [''name'', ''project'', ''condition'', ''operation'', ''purpose'', ''is_seed'', ''iaas'', ''uid'']"
    by (simp only: prod.case)
  from bspec [OF all m2] have b: "\<exists>d. getGardenMetricsDefinitions (exposedName ''operations_total'') = Some d
      \<and> variableLabels d = [''operation'', ''state'', ''iaas'', ''seed'', ''version'', ''region'']"
    by (simp only: prod.case)
  have e1: "exposedName ''shoot_condition'' = ''garden_shoot_condition''"
    by (simp add: exposedName_def)
  have e2: "exposedName ''operations_total'' = ''garden_shoot_operations_total''"
    by (simp add: exposedName_def)
  from a b have "(\<exists>d. getGardenMetricsDefinitions ''garden_shoot_condition'' = Some d
          \<and> variableLabels d =
              [''name'', ''project'', ''condition'', ''operation'', ''purpose'', ''is_seed'', ''iaas'', ''uid''])
   \<and> (\<exists>d. getGardenMetricsDefinitions ''garden_shoot_operations_total'' = Some d
          \<and> variableLabels d = [''operation'', ''state'', ''iaas'', ''seed'', ''version'', ''region''])"
    unfolding e1 e2 by (rule conjI)
  with m1 m2 show ?thesis by (intro conjI) (erule conjunct1 conjunct2 | assumption)+
qed

text \<open>
  Claim C9. Every key of the map returned by \<open>getGardenMetricsDefinitions\<close> is the
  fully-qualified name of the descriptor it maps to and starts with \<open>garden_\<close>. The
  descriptor of the spec's \<open>operations_total\<close> is exposed as
  \<open>garden_shoot_operations_total\<close>, with one more segment \<open>shoot_\<close> (there is no
  \<open>garden_operations_total\<close>), and the one of \<open>users_total\<close> as \<open>garden_users_total\<close>.
\<close>

theorem catalog_keys_are_fqNames:
  "(\<forall>k d. getGardenMetricsDefinitions k = Some d \<longrightarrow> fqName d = k \<and> prefix ''garden_'' k)
   \<and> metricGardenOperationsTotal = ''garden_shoot_operations_total''
   \<and> metricGardenUsersSum = ''garden_users_total''
   \<and> (\<exists>d. getGardenMetricsDefinitions ''garden_shoot_operations_total'' = Some d
          \<and> map_of requiredMetrics ''operations_total'' = Some (variableLabels d))
   \<and> getGardenMetricsDefinitions ''garden_operations_total'' = None
   \<and> (\<exists>d. getGardenMetricsDefinitions ''garden_users_total'' = Some d
          \<and> map_of requiredMetrics ''users_total'' = Some (variableLabels d))"
proof -
  have a: "\<forall>k d. getGardenMetricsDefinitions k = Some d \<longrightarrow> fqName d = k \<and> prefix ''garden_'' k"
    using catalog_fqName catalogKeys_prefix dom_catalog by blast
  have b: "\<exists>d. getGardenMetricsDefinitions ''garden_shoot_operations_total'' = Some d
      \<and> map_of requiredMetrics ''operations_total'' = Some (variableLabels d)"
    by (simp add: getGardenMetricsDefinitions_def metric_names NewDesc_def requiredMetrics_def)
  have c: "getGardenMetricsDefinitions ''garden_operations_total'' = None"
    by (simp add: getGardenMetricsDefinitions_def metric_names)
  have d: "\<exists>d. getGardenMetricsDefinitions ''garden_users_total'' = Some d
      \<and> map_of requiredMetrics ''users_total'' = Some (variableLabels d)"
    by (simp add: getGardenMetricsDefinitions_def metric_names NewDesc_def requiredMetrics_def)
  show ?thesis using a b c d by (simp add: metric_names)
qed

theorem catalog_keys_are_fqNames_witness:
  "getGardenMetricsDefinitions metricGardenShootInfo
     = Some (NewDesc metricGardenShootInfo ''Information about a Shoot.''
         [''name'', ''project'', ''iaas'', ''version'', ''region'', ''seed'', ''is_seed''] [])
   \<and> fqName (NewDesc metricGardenShootInfo ''Information about a Shoot.''
         [''name'', ''project'', ''iaas'', ''version'', ''region'', ''seed'', ''is_seed''] [])
       = metricGardenShootInfo
   \<and> prefix ''garden_'' metricGardenShootInfo"
proof -
  have l: "getGardenMetricsDefinitions metricGardenShootInfo
     = Some (NewDesc metricGardenShootInfo ''Information about a Shoot.''
         [''name'', ''project'', ''iaas'', ''version'', ''region'', ''seed'', ''is_seed''] [])"
    by (simp add: getGardenMetricsDefinitions_def metric_names)
  from catalog_keys_are_fqNames have "\<forall>k d. getGardenMetricsDefinitions k = Some d \<longrightarrow> fqName d = k \<and> prefix ''garden_'' k"
    by (rule conjunct1)
  with l show ?thesis by simp
qed

section \<open>Properties of Describe\<close>

lemma range_send_eq: "set ks \<subseteq> dom m \<Longrightarrow> range_send m ks ch = ch @ map (\<lambda>k. the (m k)) ks"
  by (induction ks arbitrary: ch) auto

lemma range_send_order: "range_order m ks \<Longrightarrow> range_send m ks ch = ch @ map (\<lambda>k. the (m k)) ks"
  by (simp add: range_order_def range_send_eq)

lemma set_range_values: "range_order m ks \<Longrightarrow> set (map (\<lambda>k. the (m k)) ks) = ran m"
  by (force simp: range_order_def ran_def dom_def)

lemma length_range_values: "range_order m ks \<Longrightarrow> length (map (\<lambda>k. the (m k)) ks) = card (dom m)"
  by (metis distinct_card length_map range_order_def)

lemma catalog_emitted_names:
  "set ks \<subseteq> dom getGardenMetricsDefinitions \<Longrightarrow> map fqName (map (\<lambda>k. the (getGardenMetricsDefinitions k)) ks) = ks"
  by (induction ks) (auto simp: catalog_fqName)

lemma range_order_catalogKeys: "range_order getGardenMetricsDefinitions catalogKeys"
  by (simp add: range_order_def dom_catalog distinct_catalogKeys)

lemma range_order_rev: "range_order m ks \<Longrightarrow> range_order m (rev ks)"
  by (simp add: range_order_def)

lemma Describe_emits: "range_order (descs c) ks \<Longrightarrow> Describe ks cust c ch = (c, ch @ map (\<lambda>k. the (descs c k)) ks @ cust)"
  by (simp add: Describe_def registerShootCustomizationMetrics_def range_send_order)

text \<open>
  Claim C7. For every order in which the runtime ranges over the catalog, \<open>Describe\<close>
  sends every descriptor of the collector's catalog and the customization descriptors, and
  nothing else; it only appends to the channel and returns the collector as it was (informer
  handles, catalog, logger). A second invocation, on the collector the first one left and
  in whatever order, sends the same set of descriptors and leaves the collector unchanged
  again.
\<close>

theorem Describe_idempotent:
  assumes o1: "range_order (descs c) ks1" and o2: "range_order (descs c) ks2"
  shows "set (snd (Describe ks1 cust c [])) = ran (descs c) \<union> set cust
    \<and> (\<exists>out. snd (Describe ks1 cust c ch) = ch @ out \<and> set out = ran (descs c) \<union> set cust)
    \<and> fst (Describe ks1 cust c ch) = c
    \<and> (case Describe ks1 cust c [] of (c1, out1) \<Rightarrow>
         case Describe ks2 cust c1 [] of (c2, out2) \<Rightarrow> c1 = c \<and> c2 = c \<and> set out2 = set out1)"
  using set_range_values [OF o1] set_range_values [OF o2]
  by (simp add: Describe_emits [OF o1] Describe_emits [OF o2])

theorem Describe_idempotent_witness:
  "range_order (descs exampleCollector) catalogKeys
   \<and> range_order (descs exampleCollector) (rev catalogKeys)
   \<and> set (snd (Describe catalogKeys exampleCustomization exampleCollector []))
       = ran getGardenMetricsDefinitions \<union> set exampleCustomization
   \<and> fst (Describe catalogKeys exampleCustomization exampleCollector []) = exampleCollector
   \<and> set (snd (Describe (rev catalogKeys) exampleCustomization
         (fst (Describe catalogKeys exampleCustomization exampleCollector [])) []))
       = set (snd (Describe catalogKeys exampleCustomization exampleCollector []))"
proof -
  have d: "descs exampleCollector = getGardenMetricsDefinitions" by (simp add: exampleCollector_def)
  have o1: "range_order (descs exampleCollector) catalogKeys"
    unfolding d by (rule range_order_catalogKeys)
  have o2: "range_order (descs exampleCollector) (rev catalogKeys)"
    using o1 by (rule range_order_rev)
  from Describe_idempotent [OF o1 o2, of exampleCustomization "[]"] o1 o2 d
  show ?thesis by (auto split: prod.splits)
qed

text \<open>
  Claim C10. On a collector built with the catalog of \<open>getGardenMetricsDefinitions\<close>, any
  two invocations of \<open>Describe\<close> send the same set of catalog descriptors, sixteen of
  them, followed in both by the customization descriptors; the order of the catalog
  descriptors is the order the runtime ranges over the map, so there are two invocations
  that send them in different orders.
\<close>

theorem Describe_order:
  assumes c: "descs c = getGardenMetricsDefinitions"
  shows "(\<forall>ks1 ks2. range_order (descs c) ks1 \<and> range_order (descs c) ks2 \<longrightarrow>
            (\<exists>xs1 xs2. snd (Describe ks1 cust c []) = xs1 @ cust
                     \<and> snd (Describe ks2 cust c []) = xs2 @ cust
                     \<and> set xs1 = ran getGardenMetricsDefinitions \<and> set xs2 = set xs1
                     \<and> length xs1 = 16 \<and> length xs2 = 16
                     \<and> map fqName xs1 = ks1 \<and> map fqName xs2 = ks2))
     \<and> (\<exists>ks1 ks2. range_order (descs c) ks1 \<and> range_order (descs c) ks2
            \<and> snd (Describe ks1 cust c []) \<noteq> snd (Describe ks2 cust c []))"
proof (intro conjI allI impI)
  fix ks1 ks2
  assume "range_order (descs c) ks1 \<and> range_order (descs c) ks2"
  then have o1: "range_order (descs c) ks1" and o2: "range_order (descs c) ks2" by simp_all
  let ?xs1 = "map (\<lambda>k. the (descs c k)) ks1" and ?xs2 = "map (\<lambda>k. the (descs c k)) ks2"
  have s1: "set ks1 \<subseteq> dom getGardenMetricsDefinitions" and s2: "set ks2 \<subseteq> dom getGardenMetricsDefinitions"
    using o1 o2 c by (simp_all add: range_order_def)
  have "snd (Describe ks1 cust c []) = ?xs1 @ cust" "snd (Describe ks2 cust c []) = ?xs2 @ cust"
    by (simp_all add: Describe_emits [OF o1] Describe_emits [OF o2])
  moreover have "set ?xs1 = ran getGardenMetricsDefinitions" "set ?xs2 = set ?xs1"
    using set_range_values [OF o1] set_range_values [OF o2] c by simp_all
  moreover have "length ?xs1 = 16" "length ?xs2 = 16"
    using length_range_values [OF o1] length_range_values [OF o2] c card_catalog by simp_all
  moreover have "map fqName ?xs1 = ks1" "map fqName ?xs2 = ks2"
    using catalog_emitted_names [OF s1] catalog_emitted_names [OF s2] c by simp_all
  ultimately show "\<exists>xs1 xs2. snd (Describe ks1 cust c []) = xs1 @ cust
                     \<and> snd (Describe ks2 cust c []) = xs2 @ cust
                     \<and> set xs1 = ran getGardenMetricsDefinitions \<and> set xs2 = set xs1
                     \<and> length xs1 = 16 \<and> length xs2 = 16
                     \<and> map fqName xs1 = ks1 \<and> map fqName xs2 = ks2"
    by blast
next
  have o1: "range_order (descs c) catalogKeys" using c range_order_catalogKeys by simp
  have o2: "range_order (descs c) (rev catalogKeys)" using o1 by (rule range_order_rev)
  have s1: "set catalogKeys \<subseteq> dom getGardenMetricsDefinitions" by (simp add: dom_catalog)
  have ne: "catalogKeys \<noteq> rev catalogKeys"
    by (simp add: catalogKeys_def metric_names)
  have "snd (Describe catalogKeys cust c []) \<noteq> snd (Describe (rev catalogKeys) cust c [])"
  proof
    assume "snd (Describe catalogKeys cust c []) = snd (Describe (rev catalogKeys) cust c [])"
    then have "map (\<lambda>k. the (getGardenMetricsDefinitions k)) catalogKeys
        = map (\<lambda>k. the (getGardenMetricsDefinitions k)) (rev catalogKeys)"
      by (simp add: Describe_emits [OF o1] Describe_emits [OF o2] c)
    then have "map fqName (map (\<lambda>k. the (getGardenMetricsDefinitions k)) catalogKeys)
        = map fqName (map (\<lambda>k. the (getGardenMetricsDefinitions k)) (rev catalogKeys))"
      by simp
    then have "catalogKeys = rev catalogKeys"
      using catalog_emitted_names [OF s1] catalog_emitted_names [of "rev catalogKeys"] s1 by simp
    with ne show False by simp
  qed
  with o1 o2 show "\<exists>ks1 ks2. range_order (descs c) ks1 \<and> range_order (descs c) ks2
            \<and> snd (Describe ks1 cust c []) \<noteq> snd (Describe ks2 cust c [])"
    by blast
qed

theorem Describe_order_witness:
  "descs exampleCollector = getGardenMetricsDefinitions
   \<and> range_order (descs exampleCollector) catalogKeys
   \<and> range_order (descs exampleCollector) (rev catalogKeys)
   \<and> (\<exists>xs1 xs2. snd (Describe catalogKeys exampleCustomization exampleCollector [])
                    = xs1 @ exampleCustomization
               \<and> snd (Describe (rev catalogKeys) exampleCustomization exampleCollector [])
                    = xs2 @ exampleCustomization
               \<and> set xs2 = set xs1 \<and> length xs1 = 16 \<and> length xs2 = 16
               \<and> map fqName xs1 = catalogKeys \<and> map fqName xs2 = rev catalogKeys)"
proof -
  have d: "descs exampleCollector = getGardenMetricsDefinitions" by (simp add: exampleCollector_def)
  have o1: "range_order (descs exampleCollector) catalogKeys"
    unfolding d by (rule range_order_catalogKeys)
  have o2: "range_order (descs exampleCollector) (rev catalogKeys)"
    using o1 by (rule range_order_rev)
  from Describe_order [OF d, of exampleCustomization]
  have "\<forall>ks1 ks2. range_order (descs exampleCollector) ks1 \<and> range_order (descs exampleCollector) ks2 \<longrightarrow>
            (\<exists>xs1 xs2. snd (Describe ks1 exampleCustomization exampleCollector []) = xs1 @ exampleCustomization
                     \<and> snd (Describe ks2 exampleCustomization exampleCollector []) = xs2 @ exampleCustomization
                     \<and> set xs1 = ran getGardenMetricsDefinitions \<and> set xs2 = set xs1
                     \<and> length xs1 = 16 \<and> length xs2 = 16
                     \<and> map fqName xs1 = ks1 \<and> map fqName xs2 = ks2)"
    by (rule conjunct1)
  with o1 o2 have "\<exists>xs1 xs2. snd (Describe catalogKeys exampleCustomization exampleCollector [])
                    = xs1 @ exampleCustomization
               \<and> snd (Describe (rev catalogKeys) exampleCustomization exampleCollector [])
                    = xs2 @ exampleCustomization
               \<and> set xs1 = ran getGardenMetricsDefinitions \<and> set xs2 = set xs1
               \<and> length xs1 = 16 \<and> length xs2 = 16
               \<and> map fqName xs1 = catalogKeys \<and> map fqName xs2 = rev catalogKeys"
    by blast
  with d o1 o2 show ?thesis by blast
qed

section \<open>Properties of Collect\<close>

text \<open>
  Claim C3. Every invocation of \<open>Collect\<close> invokes the four extractors once each, in the
  order Project, Shoot, Seed, Plant, each in the state the one before it left, and the
  output channel receives, after what it held, the samples of the four extractors in that
  order: every sample an extractor produces is on the channel.
\<close>

theorem Collect_order:
  "invoked (Collect e c s) = invoked s @ [ProjectKind, ShootKind, SeedKind, PlantKind]
   \<and> (case collectProjectMetrics e c (world s) of (p, w1) \<Rightarrow>
      case collectShootMetrics e c w1 of (sh, w2) \<Rightarrow>
      case collectSeedMetrics e c w2 of (se, w3) \<Rightarrow>
      case collectPlantMetrics e c w3 of (pl, w4) \<Rightarrow>
        sent (Collect e c s) = sent s @ p @ sh @ se @ pl \<and> world (Collect e c s) = w4
        \<and> set p \<union> set sh \<union> set se \<union> set pl \<subseteq> set (sent (Collect e c s)))"
  by (auto simp: Collect_def invoke_def Let_def split: prod.splits)

theorem Collect_order_witness:
  "invoked (Collect exampleExtractors () \<lparr>sent = [], world = 1, invoked = []\<rparr>)
     = [ProjectKind, ShootKind, SeedKind, PlantKind]
   \<and> sent (Collect exampleExtractors () \<lparr>sent = [], world = 1, invoked = []\<rparr>) = [1, 2, 4, 7]
   \<and> world (Collect exampleExtractors () \<lparr>sent = [], world = 1, invoked = []\<rparr>) = 49"
  using Collect_order [of exampleExtractors "()" "\<lparr>sent = [], world = 1, invoked = []\<rparr>"]
  by (simp add: exampleExtractors_def)

section \<open>Properties of the registration\<close>

lemma checkDescs_ids:
  "checkDescs r ds a = Inr a' \<Longrightarrow> newDescIDs a' = newDescIDs a \<union> desc_id ` set ds"
proof (induction ds arbitrary: a)
  case Nil then show ?case by simp
next
  case (Cons d ds)
  then show ?case
    by (auto simp: Let_def split: if_splits option.splits)
qed

lemma checkDescs_dup_kept:
  "checkDescs r ds a = Inr a' \<Longrightarrow> duplicateDescErr a \<noteq> None \<Longrightarrow> duplicateDescErr a' \<noteq> None"
proof (induction ds arbitrary: a)
  case Nil then show ?case by simp
next
  case (Cons d ds)
  then show ?case
    by (fastforce simp: Let_def split: if_splits option.splits)
qed

lemma checkDescs_dup:
  "checkDescs r ds a = Inr a' \<Longrightarrow> d \<in> set ds \<Longrightarrow> desc_id d \<in> descIDs r \<Longrightarrow> duplicateDescErr a' \<noteq> None"
proof (induction ds arbitrary: a)
  case Nil then show ?case by simp
next
  case (Cons x ds)
  show ?case
  proof (cases "d = x")
    case True
    with Cons.prems show ?thesis
      by (auto simp: Let_def split: if_splits option.splits dest!: checkDescs_dup_kept)
  next
    case False
    with Cons.prems have "d \<in> set ds" by simp
    with Cons.prems Cons.IH show ?thesis
      by (auto simp: Let_def split: if_splits option.splits)
  qed
qed

lemma checkDescs_nodup:
  "checkDescs r ds a = Inr a' \<Longrightarrow> duplicateDescErr a' = None \<Longrightarrow> desc_id ` set ds \<inter> descIDs r = {}"
  using checkDescs_dup by fastforce

lemma Register_duplicate:
  assumes "d \<in> set ds" and "desc_id d \<in> descIDs r"
  shows "\<exists>e. Register c ds r = Inl e"
proof (cases "checkDescs r ds no_checks")
  case (Inl e) then show ?thesis by (simp add: Register_def)
next
  case (Inr a)
  from checkDescs_dup [OF Inr assms] obtain e where e: "duplicateDescErr a = Some e" by auto
  from checkDescs_ids [OF Inr] assms(1) have "newDescIDs a \<noteq> {}" by auto
  with Inr e show ?thesis by (simp add: Register_def)
qed

lemma Register_success:
  assumes "Register c ds r = Inr r'" and "ds \<noteq> []"
  shows "collectorsByID r (desc_id ` set ds) = None
    \<and> desc_id ` set ds \<inter> descIDs r = {}
    \<and> collectorsByID r' = (collectorsByID r)(desc_id ` set ds \<mapsto> c)
    \<and> descIDs r' = descIDs r \<union> desc_id ` set ds
    \<and> uncheckedCollectors r' = uncheckedCollectors r"
proof (cases "checkDescs r ds no_checks")
  case (Inl e) with assms show ?thesis by (simp add: Register_def)
next
  case (Inr a)
  from checkDescs_ids [OF Inr] have ids: "newDescIDs a = desc_id ` set ds" by (simp add: no_checks_def)
  with assms(2) have ne: "newDescIDs a \<noteq> {}" by simp
  from assms(1) Inr ne have nd: "duplicateDescErr a = None"
    by (auto simp: Register_def split: if_splits option.splits)
  from checkDescs_nodup [OF Inr nd] have "desc_id ` set ds \<inter> descIDs r = {}" .
  with assms(1) Inr ne nd ids show ?thesis
    by (auto simp: Register_def split: if_splits option.splits)
qed

lemma MustRegister_panics:
  "d \<in> set ds \<Longrightarrow> desc_id d \<in> descIDs r \<Longrightarrow> \<exists>e. MustRegister c ds r = (Some e, r)"
  using Register_duplicate [of d ds r c] by (auto simp: MustRegister_def)

lemma MustRegister_returns:
  "MustRegister c ds r = (None, r') \<Longrightarrow> Register c ds r = Inr r'"
  by (auto simp: MustRegister_def split: sum.splits)

lemma catalog_desc_emitted:
  assumes "range_order getGardenMetricsDefinitions ks"
  shows "the (getGardenMetricsDefinitions metricGardenUsersSum)
           \<in> set (snd (Describe ks cust \<lparr>shootInformer = a, seedInformer = b, projectInformer = p,
                 plantInformer = q, descs = getGardenMetricsDefinitions, logger = l\<rparr> []))"
proof -
  have "metricGardenUsersSum \<in> set catalogKeys" by (simp add: catalogKeys_def)
  then have "metricGardenUsersSum \<in> set ks"
    using assms by (simp add: range_order_def dom_catalog)
  then show ?thesis using assms by (simp add: Describe_emits)
qed

lemma checkDescs_fails_iff:
  "(\<exists>e. checkDescs r ds a = Inl e) \<longleftrightarrow>
     (\<exists>d\<in>set ds. desc_err d \<noteq> None
        \<or> (dimHashesByName r (fqName d) \<noteq> None
            \<and> dimHashesByName r (fqName d) \<noteq> Some (desc_dimHash d))
        \<or> (dimHashesByName r (fqName d) = None
            \<and> newDimHashesByName a (fqName d) \<noteq> None
            \<and> newDimHashesByName a (fqName d) \<noteq> Some (desc_dimHash d)))
     \<or> (\<exists>d\<in>set ds. \<exists>d'\<in>set ds. fqName d = fqName d' \<and> desc_dimHash d \<noteq> desc_dimHash d'
            \<and> dimHashesByName r (fqName d) = None)"
proof -
  define E where "E d \<longleftrightarrow> desc_err d \<noteq> None
        \<or> (dimHashesByName r (fqName d) \<noteq> None
            \<and> dimHashesByName r (fqName d) \<noteq> Some (desc_dimHash d))" for d
  define N where "N m d \<longleftrightarrow> dimHashesByName r (fqName d) = None
            \<and> m (fqName d) \<noteq> None \<and> m (fqName d) \<noteq> Some (desc_dimHash d)"
    for m :: "string \<rightharpoonup> dimHash" and d
  define P where "P d d' \<longleftrightarrow> fqName d = fqName d' \<and> desc_dimHash d \<noteq> desc_dimHash d'
            \<and> dimHashesByName r (fqName d) = None" for d d'
  have fail: "\<exists>e. checkDescs r (x # xs) b = Inl e" if "E x \<or> N (newDimHashesByName b) x" for x xs b
    using that by (auto simp: E_def N_def Let_def)
  have step: "\<exists>b'. checkDescs r (x # xs) b = checkDescs r xs b'
      \<and> newDimHashesByName b' =
          (if dimHashesByName r (fqName x) = None \<and> newDimHashesByName b (fqName x) = None
           then (newDimHashesByName b)(fqName x \<mapsto> desc_dimHash x) else newDimHashesByName b)"
    if "\<not> E x" "\<not> N (newDimHashesByName b) x" for x xs b
  proof -
    from that have ok: "desc_err x = None" by (simp add: E_def)
    from that consider
      (registered) "dimHashesByName r (fqName x) = Some (desc_dimHash x)"
      | (seen) "dimHashesByName r (fqName x) = None"
          "newDimHashesByName b (fqName x) = Some (desc_dimHash x)"
      | (new) "dimHashesByName r (fqName x) = None" "newDimHashesByName b (fqName x) = None"
      by (cases "dimHashesByName r (fqName x)"; cases "newDimHashesByName b (fqName x)")
        (auto simp: E_def N_def)
    then show ?thesis
    proof cases
      case registered
      with ok show ?thesis
        apply (simp add: Let_def)
        apply (intro conjI impI)
         apply (rule exI, rule conjI, rule refl, simp)+
        done
    next
      case seen
      with ok show ?thesis
        apply (simp add: Let_def)
        apply (intro conjI impI)
         apply (rule exI, rule conjI, rule refl, simp)+
        done
    next
      case new
      with ok show ?thesis
        apply (simp add: Let_def)
        apply (intro conjI impI)
         apply (rule exI, rule conjI, rule refl, simp)+
        done
    qed
  qed
  have pointwise: "(N m' d \<longleftrightarrow> N m d \<or> P x d) \<and> (P d x \<longrightarrow> N m d \<or> P x d)"
    if "\<not> E x" "\<not> N m x"
      and "m' = (if dimHashesByName r (fqName x) = None \<and> m (fqName x) = None
           then m(fqName x \<mapsto> desc_dimHash x) else m)"
    for m m' x d
    using that by (auto simp: E_def N_def P_def split: if_splits)
  have main: "(\<exists>e. checkDescs r xs b = Inl e) \<longleftrightarrow>
      (\<exists>d\<in>set xs. E d \<or> N (newDimHashesByName b) d) \<or> (\<exists>d\<in>set xs. \<exists>d'\<in>set xs. P d d')" for xs b
  proof (induction xs arbitrary: b)
    case Nil
    show ?case by simp
  next
    case (Cons x xs)
    show ?case
    proof (cases "E x \<or> N (newDimHashesByName b) x")
      case True
      with fail [OF True, of xs] show ?thesis by auto
    next
      case False
      then have nE: "\<not> E x" and nN: "\<not> N (newDimHashesByName b) x" by simp_all
      from step [OF nE nN, of xs] obtain b' where
        st: "checkDescs r (x # xs) b = checkDescs r xs b'" and
        nd: "newDimHashesByName b' =
          (if dimHashesByName r (fqName x) = None \<and> newDimHashesByName b (fqName x) = None
           then (newDimHashesByName b)(fqName x \<mapsto> desc_dimHash x) else newDimHashesByName b)"
        by blast
      note pw = pointwise [OF nE nN nd]
      have xx: "\<not> P x x" by (simp add: P_def)
      have "(\<exists>e. checkDescs r (x # xs) b = Inl e) \<longleftrightarrow>
          (\<exists>d\<in>set xs. E d \<or> N (newDimHashesByName b') d) \<or> (\<exists>d\<in>set xs. \<exists>d'\<in>set xs. P d d')"
        unfolding st by (rule Cons.IH)
      also have "\<dots> \<longleftrightarrow> (\<exists>d\<in>set (x # xs). E d \<or> N (newDimHashesByName b) d)
          \<or> (\<exists>d\<in>set (x # xs). \<exists>d'\<in>set (x # xs). P d d')"
        using pw xx nE nN by (simp only: list.set bex_simps ball_simps) blast
      finally show ?thesis .
    qed
  qed
  show ?thesis using main [of ds a] unfolding E_def N_def P_def by simp
qed

lemma checkDescs_dup_iff:
  "checkDescs r ds a = Inr a' \<Longrightarrow>
     duplicateDescErr a' \<noteq> None \<longleftrightarrow>
       duplicateDescErr a \<noteq> None \<or> (\<exists>d\<in>set ds. desc_id d \<in> descIDs r)"
proof (induction ds arbitrary: a)
  case Nil then show ?case by auto
next
  case (Cons x ds)
  then show ?case
    by (auto simp: Let_def split: if_splits option.splits)
qed


lemma Register_fails_iff:
  "(\<exists>e. Register c ds r = Inl e) \<longleftrightarrow>
     (\<exists>d\<in>set ds. desc_err d \<noteq> None
        \<or> (dimHashesByName r (fqName d) \<noteq> None
            \<and> dimHashesByName r (fqName d) \<noteq> Some (desc_dimHash d)))
     \<or> (\<exists>d\<in>set ds. \<exists>d'\<in>set ds. fqName d = fqName d' \<and> desc_dimHash d \<noteq> desc_dimHash d'
            \<and> dimHashesByName r (fqName d) = None)
     \<or> (set ds \<noteq> {} \<and> (collectorsByID r (desc_id ` set ds) \<noteq> None
            \<or> (\<exists>d\<in>set ds. desc_id d \<in> descIDs r)))"
  (is "?L \<longleftrightarrow> ?A \<or> ?B \<or> ?C")
proof (cases "checkDescs r ds no_checks")
  case (Inl e)
  then have "\<exists>e. checkDescs r ds no_checks = Inl e" by blast
  then have "?A \<or> ?B" unfolding checkDescs_fails_iff by (simp add: no_checks_def)
  moreover from Inl have ?L by (simp add: Register_def)
  ultimately show ?thesis by blast
next
  case (Inr a)
  then have "\<not> (\<exists>e. checkDescs r ds no_checks = Inl e)" by simp
  then have nAB: "\<not> (?A \<or> ?B)" unfolding checkDescs_fails_iff by (simp add: no_checks_def)
  from checkDescs_ids [OF Inr] have ids: "newDescIDs a = desc_id ` set ds"
    by (simp add: no_checks_def)
  from checkDescs_dup_iff [OF Inr]
  have dup: "duplicateDescErr a \<noteq> None \<longleftrightarrow> (\<exists>d\<in>set ds. desc_id d \<in> descIDs r)"
    by (simp add: no_checks_def)
  have "?L \<longleftrightarrow> ?C"
  proof (cases "set ds = {}")
    case True
    with Inr ids show ?thesis by (simp add: Register_def)
  next
    case False
    with Inr ids dup show ?thesis
      by (cases "duplicateDescErr a") (auto simp: Register_def)
  qed
  with nAB show ?thesis by blast
qed

lemma Register_order_independent:
  assumes "set ds = set ds'"
  shows "(\<exists>e. Register c ds r = Inl e) \<longleftrightarrow> (\<exists>e. Register c' ds' r = Inl e)"
  unfolding Register_fails_iff assms ..

lemma MustRegister_registry:
  "MustRegister c ds r = (x, r') \<Longrightarrow> descIDs r \<subseteq> descIDs r'"
proof (cases "Register c ds r")
  case (Inl e)
  assume "MustRegister c ds r = (x, r')"
  with Inl show ?thesis by (simp add: MustRegister_def)
next
  case (Inr r'')
  assume m: "MustRegister c ds r = (x, r')"
  with Inr have eq: "r'' = r'" by (simp add: MustRegister_def)
  show ?thesis
  proof (cases "ds = []")
    case True
    with Inr eq show ?thesis by (auto simp: Register_def no_checks_def)
  next
    case False
    from Register_success [OF Inr False] eq show ?thesis by auto
  qed
qed

lemma Describe_set:
  "range_order (descs c) ks \<Longrightarrow> set (snd (Describe ks cust c [])) = ran (descs c) \<union> set cust"
  using set_range_values [of "descs c" ks] by (simp add: Describe_emits)

text \<open>
  Claim C2. When a call of \<open>SetupMetricsCollector\<close> returns, the registry holds exactly two
  collectors more than before, the garden metrics collector and the scrape-failure counter,
  each under an id that was free; in that registry, and in every later one that still holds
  its descriptors, a second call panics and leaves the registry as it is, whatever
  informers, logger, customization descriptors and range order it is given. Whatever the
  first call did (returned, or panicked at either registration), a second call in the
  state the first one left panics.
\<close>

theorem SetupMetricsCollector_twice:
  assumes o1: "range_order getGardenMetricsDefinitions ks1"
      and o2: "range_order getGardenMetricsDefinitions ks2"
  shows "(\<forall>r1. SetupMetricsCollector ks1 cust sf sh se pr pl lg r = (None, r1) \<longrightarrow>
            (\<exists>gid sid. gid \<noteq> sid \<and> collectorsByID r gid = None \<and> collectorsByID r sid = None
               \<and> collectorsByID r1 =
                   (collectorsByID r)
                     (gid \<mapsto> GardenMetrics \<lparr>shootInformer = sh, seedInformer = se,
                         projectInformer = pr, plantInformer = pl,
                         descs = getGardenMetricsDefinitions, logger = lg\<rparr>,
                      sid \<mapsto> ScrapeFailures))
            \<and> (\<forall>r2 cust2 sf2. descIDs r1 \<subseteq> descIDs r2 \<longrightarrow>
                  (\<exists>e. SetupMetricsCollector ks2 cust2 sf2 sh' se' pr' pl' lg' r2 = (Some e, r2))))
       \<and> (\<exists>e. SetupMetricsCollector ks2 cust sf sh' se' pr' pl' lg'
                  (snd (SetupMetricsCollector ks1 cust sf sh se pr pl lg r))
               = (Some e, snd (SetupMetricsCollector ks1 cust sf sh se pr pl lg r)))"
proof -
  let ?c = "\<lparr>shootInformer = sh, seedInformer = se, projectInformer = pr, plantInformer = pl,
      descs = getGardenMetricsDefinitions, logger = lg\<rparr>"
  let ?c' = "\<lparr>shootInformer = sh', seedInformer = se', projectInformer = pr', plantInformer = pl',
      descs = getGardenMetricsDefinitions, logger = lg'\<rparr>"
  let ?ds1 = "snd (Describe ks1 cust ?c [])"
  let ?d = "the (getGardenMetricsDefinitions metricGardenUsersSum)"
  have d1: "?d \<in> set ?ds1" using o1 by (rule catalog_desc_emitted)
  from d1 have ne1: "?ds1 \<noteq> []" by auto
  have panics: "\<exists>e. SetupMetricsCollector ks2 cust2 sf2 sh' se' pr' pl' lg' r2 = (Some e, r2)"
    if "desc_id ?d \<in> descIDs r2" for r2 cust2 sf2
  proof -
    have "?d \<in> set (snd (Describe ks2 cust2 ?c' []))" using o2 by (rule catalog_desc_emitted)
    from MustRegister_panics [OF this that]
    obtain e where "MustRegister (GardenMetrics ?c') (snd (Describe ks2 cust2 ?c' [])) r2 = (Some e, r2)"
      by blast
    then show ?thesis by (simp add: SetupMetricsCollector_def Let_def)
  qed
  have registered: "desc_id ?d \<in> descIDs r'"
    if "MustRegister (GardenMetrics ?c) ?ds1 r = (None, r')" for r'
    using Register_success [OF MustRegister_returns [OF that] ne1] d1 by auto
  have part1: "(\<exists>gid sid. gid \<noteq> sid \<and> collectorsByID r gid = None \<and> collectorsByID r sid = None
               \<and> collectorsByID r1 =
                   (collectorsByID r)(gid \<mapsto> GardenMetrics ?c, sid \<mapsto> ScrapeFailures))
            \<and> (\<forall>r2 cust2 sf2. descIDs r1 \<subseteq> descIDs r2 \<longrightarrow>
                  (\<exists>e. SetupMetricsCollector ks2 cust2 sf2 sh' se' pr' pl' lg' r2 = (Some e, r2)))"
    if first: "SetupMetricsCollector ks1 cust sf sh se pr pl lg r = (None, r1)" for r1
  proof -
    from first obtain r' where
      m1: "MustRegister (GardenMetrics ?c) ?ds1 r = (None, r')" and
      m2: "MustRegister ScrapeFailures [sf] r' = (None, r1)"
      by (auto simp: SetupMetricsCollector_def Let_def split: prod.splits option.splits)
    note g = Register_success [OF MustRegister_returns [OF m1] ne1]
    have s: "collectorsByID r' (desc_id ` set [sf]) = None
      \<and> desc_id ` set [sf] \<inter> descIDs r' = {}
      \<and> collectorsByID r1 = (collectorsByID r')(desc_id ` set [sf] \<mapsto> ScrapeFailures)
      \<and> descIDs r1 = descIDs r' \<union> desc_id ` set [sf]
      \<and> uncheckedCollectors r1 = uncheckedCollectors r'"
      by (rule Register_success [OF MustRegister_returns [OF m2]]) simp
    let ?gid = "desc_id ` set ?ds1" and ?sid = "desc_id ` set [sf]"
    have neq: "?gid \<noteq> ?sid" using g s by auto
    have "collectorsByID r ?gid = None" using g by simp
    moreover have "collectorsByID r ?sid = None" using g s neq by (auto split: if_splits)
    moreover have "collectorsByID r1 = (collectorsByID r)(?gid \<mapsto> GardenMetrics ?c, ?sid \<mapsto> ScrapeFailures)"
      using g s by simp
    ultimately have a: "\<exists>gid sid. gid \<noteq> sid \<and> collectorsByID r gid = None \<and> collectorsByID r sid = None
              \<and> collectorsByID r1 = (collectorsByID r)(gid \<mapsto> GardenMetrics ?c, sid \<mapsto> ScrapeFailures)"
      using neq by blast
    have in1: "desc_id ?d \<in> descIDs r1" using registered [OF m1] s by auto
    have b: "\<exists>e. SetupMetricsCollector ks2 cust2 sf2 sh' se' pr' pl' lg' r2 = (Some e, r2)"
      if "descIDs r1 \<subseteq> descIDs r2" for r2 cust2 sf2
      using in1 that by (intro panics) auto
    from a b show ?thesis by blast
  qed
  let ?first = "SetupMetricsCollector ks1 cust sf sh se pr pl lg r"
  have part2: "\<exists>e. SetupMetricsCollector ks2 cust sf sh' se' pr' pl' lg' (snd ?first) = (Some e, snd ?first)"
  proof (cases "MustRegister (GardenMetrics ?c) ?ds1 r")
    case (Pair x r')
    show ?thesis
    proof (cases x)
      case None
      with Pair have m1: "MustRegister (GardenMetrics ?c) ?ds1 r = (None, r')" by simp
      then have f: "?first = MustRegister ScrapeFailures [sf] r'"
        by (simp add: SetupMetricsCollector_def Let_def)
      have "descIDs r' \<subseteq> descIDs (snd ?first)"
        unfolding f by (rule MustRegister_registry [of ScrapeFailures "[sf]" r' "fst (MustRegister ScrapeFailures [sf] r')"]) simp
      with registered [OF m1] have "desc_id ?d \<in> descIDs (snd ?first)" by auto
      then show ?thesis by (rule panics)
    next
      case (Some e)
      with Pair have m1: "MustRegister (GardenMetrics ?c) ?ds1 r = (Some e, r')" by simp
      then have fail1: "\<exists>e. Register (GardenMetrics ?c) ?ds1 r = Inl e" and r': "r' = r"
        by (auto simp: MustRegister_def split: sum.splits)
      from m1 r' have f: "?first = (Some e, r)"
        by (simp add: SetupMetricsCollector_def Let_def)
      let ?ds2 = "snd (Describe ks2 cust ?c' [])"
      have "set ?ds1 = set ?ds2" using o1 o2 by (simp add: Describe_set)
      from fail1 Register_order_independent [OF this, of "GardenMetrics ?c" r "GardenMetrics ?c'"]
      obtain e' where "Register (GardenMetrics ?c') ?ds2 r = Inl e'" by blast
      then have "SetupMetricsCollector ks2 cust sf sh' se' pr' pl' lg' r = (Some e', r)"
        by (simp add: SetupMetricsCollector_def Let_def MustRegister_def)
      then show ?thesis unfolding f by simp
    qed
  qed
  from part1 part2 show ?thesis by blast
qed

theorem SetupMetricsCollector_twice_witness:
  "range_order getGardenMetricsDefinitions catalogKeys
   \<and> range_order getGardenMetricsDefinitions (rev catalogKeys)
   \<and> fst (SetupMetricsCollector catalogKeys [] exampleScrapeFailures () () () () () emptyRegistry) = None
   \<and> (\<exists>e. fst (SetupMetricsCollector (rev catalogKeys) exampleCustomization exampleScrapeFailures
                  () () () () ()
                  (snd (SetupMetricsCollector catalogKeys [] exampleScrapeFailures
                          () () () () () emptyRegistry))) = Some e)
   \<and> (\<exists>e. fst (SetupMetricsCollector (rev catalogKeys) [] exampleScrapeFailures
                  () () () () ()
                  (snd (SetupMetricsCollector catalogKeys [] exampleScrapeFailures
                          () () () () () emptyRegistry))) = Some e)"
proof -
  let ?first = "SetupMetricsCollector catalogKeys [] exampleScrapeFailures () () () () () emptyRegistry"
  have o1: "range_order getGardenMetricsDefinitions catalogKeys"
    by (rule range_order_catalogKeys)
  have o2: "range_order getGardenMetricsDefinitions (rev catalogKeys)"
    using o1 by (rule range_order_rev)
  have f: "fst ?first = None"
    by code_simp
  then have first: "?first = (None, snd ?first)"
    by (simp add: prod_eq_iff)
  note t = SetupMetricsCollector_twice [OF o1 o2, of "[]" exampleScrapeFailures "()" "()" "()" "()" "()"
      emptyRegistry "()" "()" "()" "()" "()"]
  from t first have "\<forall>r2 cust2 sf2. descIDs (snd ?first) \<subseteq> descIDs r2 \<longrightarrow>
      (\<exists>e. SetupMetricsCollector (rev catalogKeys) cust2 sf2 () () () () () r2 = (Some e, r2))"
    by blast
  then obtain e where "SetupMetricsCollector (rev catalogKeys) exampleCustomization exampleScrapeFailures
      () () () () () (snd ?first) = (Some e, snd ?first)"
    by blast
  then have a: "\<exists>e. fst (SetupMetricsCollector (rev catalogKeys) exampleCustomization exampleScrapeFailures
      () () () () () (snd ?first)) = Some e"
    by simp
  from t obtain e' where "SetupMetricsCollector (rev catalogKeys) [] exampleScrapeFailures
      () () () () () (snd ?first) = (Some e', snd ?first)"
    by blast
  then have b: "\<exists>e. fst (SetupMetricsCollector (rev catalogKeys) [] exampleScrapeFailures
      () () () () () (snd ?first)) = Some e"
    by simp
  from o1 o2 f a b show ?thesis by blast
qed

section \<open>Properties of the extractors\<close>

lemma extractEach_eq:
  "extractEach k f xs fl = (concat (map f (wellformed xs)), snd (extractEach k f xs fl))"
  by (induction k f xs fl rule: extractEach.induct) (auto split: prod.splits)

lemma extractEach_samples: "fst (extractEach k f xs fl) = concat (map f (wellformed xs))"
  by (metis extractEach_eq fst_conv)

lemma extractEach_wellformed: "extractEach k f (map Wellformed as) fl = (concat (map f as), fl)"
  by (induction as) auto

lemma wellformed_map [simp]: "wellformed (map Wellformed as) = as"
  by (induction as) auto

lemma wellformed_append [simp]: "wellformed (xs @ ys) = wellformed xs @ wellformed ys"
  by (induction xs rule: wellformed.induct) auto

lemma wellformed_set: "x \<in> set (wellformed xs) \<longleftrightarrow> Wellformed x \<in> set xs"
  by (induction xs rule: wellformed.induct) auto

lemma extractEach_append:
  "extractEach k f (xs @ ys) fl =
     (case extractEach k f xs fl of (o1, fl1) \<Rightarrow>
        case extractEach k f ys fl1 of (o2, fl2) \<Rightarrow> (o1 @ o2, fl2))"
  by (induction k f xs fl rule: extractEach.induct) (auto split: prod.splits)

lemma extractEach_wellformed2:
  "extractEach k f (map Wellformed as @ map Wellformed bs) fl = (concat (map f as) @ concat (map f bs), fl)"
  using extractEach_wellformed [of k f "as @ bs" fl] by simp

lemma extractEach_one_malformed:
  "extractEach k f (map Wellformed as @ Malformed reason # map Wellformed bs) fl =
     (concat (map f (as @ bs)), fl((k, reason) := Suc (fl (k, reason))))"
  by (simp add: extractEach_append extractEach_wellformed increment_def)

text \<open>
  Claim C5. On a snapshot with one malformed object among well-formed ones, each
  extractor returns the samples of the scrape of the snapshot without that object, the full
  sample sets of the remaining objects, and the Scrape-Failure Counter raised by one at
  the labels of the resource kind and the failure reason, unchanged at all other labels.
\<close>

theorem failure_isolation:
  "plantExtractor (map Wellformed as @ Malformed reason # map Wellformed bs) fl
     = (fst (plantExtractor (map Wellformed (as @ bs)) fl),
        fl((''plant'', reason) := Suc (fl (''plant'', reason))))
   \<and> fst (plantExtractor (map Wellformed (as @ bs)) fl) = concat (map plantSamples (as @ bs))
   \<and> seedExtractor (map Wellformed cs @ Malformed reason # map Wellformed ds) fl
     = (fst (seedExtractor (map Wellformed (cs @ ds)) fl),
        fl((''seed'', reason) := Suc (fl (''seed'', reason))))
   \<and> fst (seedExtractor (map Wellformed (cs @ ds)) fl) = concat (map seedSamples (cs @ ds))
   \<and> shootExtractor sv (map Wellformed es @ Malformed reason # map Wellformed fs) fl
     = (fst (shootExtractor sv (map Wellformed (es @ fs)) fl),
        fl((''shoot'', reason) := Suc (fl (''shoot'', reason))))
   \<and> fst (shootExtractor sv (map Wellformed (es @ fs)) fl)
     = concat (map (shootSamples sv) (es @ fs)) @ operationsTotal (es @ fs)"
  by (simp add: plantExtractor_def seedExtractor_def shootExtractor_def
      extractEach_one_malformed extractEach_wellformed2)

theorem failure_isolation_witness:
  "plantExtractor
     [Wellformed (examplePlant ''p1''), Wellformed (examplePlant ''p2''), Malformed ''nil reference'',
      Wellformed (examplePlant ''p3''), Wellformed (examplePlant ''p4'')] noFailures
   = (concat (map plantSamples
        [examplePlant ''p1'', examplePlant ''p2'', examplePlant ''p3'', examplePlant ''p4'']),
      noFailures((''plant'', ''nil reference'') := 1))"
  using failure_isolation [of "[examplePlant ''p1'', examplePlant ''p2'']" "''nil reference''"
      "[examplePlant ''p3'', examplePlant ''p4'']" noFailures "[]" "[]" "\<lambda>st. 0" "[]" "[]"]
  by (simp add: noFailures_def)

lemma conditionValue_range: "conditionValue s \<in> {-1, 0, 1, 2}"
  by (simp add: conditionValue_def parseStatus_def)

lemma shootExtractor_samples:
  "fst (shootExtractor sv snap fl) = concat (map (shootSamples sv) (wellformed snap)) @ operationsTotal (wellformed snap)"
  using extractEach_samples [of "''shoot''" "shootSamples sv" snap fl]
  by (auto simp: shootExtractor_def split: prod.splits)


lemma operationsTotal_metric: "x \<in> set (operationsTotal shoots) \<Longrightarrow> metric x = metricGardenOperationsTotal"
  by (auto simp: operationsTotal_def Let_def)

lemma shootSamples_not_total: "x \<in> set (shootSamples sv s) \<Longrightarrow> metric x \<noteq> metricGardenOperationsTotal"
  by (auto simp: shootSamples_def shootConditionSample_def shootInfoSample_def shootCreationSample_def
      shootHibernatedSample_def shootNodeSamples_def shootOperationSamples_def shootResponseSamples_def
      metric_names split: if_splits option.splits)

lemma filter_total_shootSamples:
  "filter (\<lambda>x. metric x = metricGardenOperationsTotal) (concat (map (shootSamples sv) ss)) = []"
  by (auto simp: filter_empty_conv dest: shootSamples_not_total)

lemma filter_total_operationsTotal:
  "filter (\<lambda>x. metric x = metricGardenOperationsTotal) (operationsTotal ss) = operationsTotal ss"
  by (auto simp: filter_id_conv dest: operationsTotal_metric)

lemma filter_pershoot_shootSamples:
  "filter (\<lambda>x. metric x \<noteq> metricGardenOperationsTotal) (concat (map (shootSamples sv) ss))
     = concat (map (shootSamples sv) ss)"
  by (auto simp: filter_id_conv dest: shootSamples_not_total)

lemma filter_pershoot_operationsTotal:
  "filter (\<lambda>x. metric x \<noteq> metricGardenOperationsTotal) (operationsTotal ss) = []"
  by (auto simp: filter_empty_conv dest: operationsTotal_metric)

lemma operationsTotal_filter:
  "operationsTotal (filter (\<lambda>s. \<not> shoot_is_seed s) ss) = operationsTotal ss"
  by (simp add: operationsTotal_def)

lemma operationsTotal_drop_seed:
  "shoot_is_seed s \<Longrightarrow> operationsTotal (xs @ s # ys) = operationsTotal (xs @ ys)"
  by (simp add: operationsTotal_def)

text \<open>
  Claim C4. The \<open>operations_total\<close> samples of a scrape are those of the Shoots that do
  not act as a Seed: a Shoot with \<open>is_seed\<close> set, wherever it stands in the snapshot,
  changes none of them. The samples of the other metrics are the per-shoot samples of every
  well-formed Shoot of the snapshot, so the condition, info, creation timestamp,
  hibernated, node bounds, operation and response duration samples of a Shoot that acts as
  a Seed are emitted.
\<close>

theorem seed_shoots_not_aggregated:
  "filter (\<lambda>x. metric x = metricGardenOperationsTotal) (fst (shootExtractor sv snap fl))
     = operationsTotal (filter (\<lambda>s. \<not> shoot_is_seed s) (wellformed snap))
   \<and> (shoot_is_seed s \<longrightarrow>
        filter (\<lambda>x. metric x = metricGardenOperationsTotal)
            (fst (shootExtractor sv (xs @ Wellformed s # ys) fl))
          = filter (\<lambda>x. metric x = metricGardenOperationsTotal)
            (fst (shootExtractor sv (xs @ ys) fl)))
   \<and> filter (\<lambda>x. metric x \<noteq> metricGardenOperationsTotal) (fst (shootExtractor sv snap fl))
     = concat (map (shootSamples sv) (wellformed snap))
   \<and> (shoot_is_seed s \<and> Wellformed s \<in> set snap \<longrightarrow>
        set (map (shootConditionSample s) (shoot_conditions s)
              @ [shootInfoSample s, shootCreationSample s, shootHibernatedSample s]
              @ shootNodeSamples s @ shootOperationSamples sv s @ shootResponseSamples s)
          \<subseteq> set (fst (shootExtractor sv snap fl)))"
proof -
  have a: "filter (\<lambda>x. metric x = metricGardenOperationsTotal) (fst (shootExtractor sv snap fl))
     = operationsTotal (filter (\<lambda>s. \<not> shoot_is_seed s) (wellformed snap))" for snap
    by (simp add: shootExtractor_samples filter_total_shootSamples filter_total_operationsTotal
        operationsTotal_filter)
  have b: "filter (\<lambda>x. metric x = metricGardenOperationsTotal)
            (fst (shootExtractor sv (xs @ Wellformed s # ys) fl))
          = filter (\<lambda>x. metric x = metricGardenOperationsTotal)
            (fst (shootExtractor sv (xs @ ys) fl))" if "shoot_is_seed s"
    using that by (simp add: a)
  have c: "filter (\<lambda>x. metric x \<noteq> metricGardenOperationsTotal) (fst (shootExtractor sv snap fl))
     = concat (map (shootSamples sv) (wellformed snap))"
    by (simp add: shootExtractor_samples filter_pershoot_shootSamples filter_pershoot_operationsTotal)
  have d: "set (map (shootConditionSample s) (shoot_conditions s)
              @ [shootInfoSample s, shootCreationSample s, shootHibernatedSample s]
              @ shootNodeSamples s @ shootOperationSamples sv s @ shootResponseSamples s)
          \<subseteq> set (fst (shootExtractor sv snap fl))" if "Wellformed s \<in> set snap"
  proof -
    from that have "s \<in> set (wellformed snap)" by (simp add: wellformed_set)
    then have "set (shootSamples sv s) \<subseteq> set (fst (shootExtractor sv snap fl))"
      by (auto simp: shootExtractor_samples)
    then show ?thesis by (simp add: shootSamples_def)
  qed
  from a b c d show ?thesis by blast
qed

theorem seed_shoots_not_aggregated_witness:
  "shoot_is_seed (exampleShoot ''a'' True exampleConditions)
   \<and> Wellformed (exampleShoot ''a'' True exampleConditions)
        \<in> set [Wellformed (exampleShoot ''a'' True exampleConditions),
                Wellformed (exampleShoot ''b'' False [])]
   \<and> filter (\<lambda>x. metric x = metricGardenOperationsTotal)
        (fst (shootExtractor (\<lambda>st. 0)
           [Wellformed (exampleShoot ''a'' True exampleConditions),
            Wellformed (exampleShoot ''b'' False [])] noFailures))
      = filter (\<lambda>x. metric x = metricGardenOperationsTotal)
        (fst (shootExtractor (\<lambda>st. 0) [Wellformed (exampleShoot ''b'' False [])] noFailures))
   \<and> shootInfoSample (exampleShoot ''a'' True exampleConditions)
        \<in> set (fst (shootExtractor (\<lambda>st. 0)
           [Wellformed (exampleShoot ''a'' True exampleConditions),
            Wellformed (exampleShoot ''b'' False [])] noFailures))"
proof -
  let ?a = "exampleShoot ''a'' True exampleConditions" and ?b = "exampleShoot ''b'' False []"
  have s: "shoot_is_seed ?a" by (simp add: exampleShoot_def)
  have m: "Wellformed ?a \<in> set [Wellformed ?a, Wellformed ?b]" by simp
  note t = seed_shoots_not_aggregated [of "\<lambda>st. 0" "[Wellformed ?a, Wellformed ?b]" noFailures ?a
      "[]" "[Wellformed ?b]"]
  from t s have e: "filter (\<lambda>x. metric x = metricGardenOperationsTotal)
        (fst (shootExtractor (\<lambda>st. 0) ([] @ Wellformed ?a # [Wellformed ?b]) noFailures))
      = filter (\<lambda>x. metric x = metricGardenOperationsTotal)
        (fst (shootExtractor (\<lambda>st. 0) ([] @ [Wellformed ?b]) noFailures))"
    by blast
  from t s m have "set (map (shootConditionSample ?a) (shoot_conditions ?a)
              @ [shootInfoSample ?a, shootCreationSample ?a, shootHibernatedSample ?a]
              @ shootNodeSamples ?a @ shootOperationSamples (\<lambda>st. 0) ?a @ shootResponseSamples ?a)
          \<subseteq> set (fst (shootExtractor (\<lambda>st. 0) [Wellformed ?a, Wellformed ?b] noFailures))"
    by blast
  then have i: "shootInfoSample ?a
      \<in> set (fst (shootExtractor (\<lambda>st. 0) [Wellformed ?a, Wellformed ?b] noFailures))"
    by simp
  from s m e i show ?thesis by simp
qed

lemma seedExtractor_samples: "fst (seedExtractor snap fl) = concat (map seedSamples (wellformed snap))"
  by (simp add: seedExtractor_def extractEach_samples)

lemma plantExtractor_samples: "fst (plantExtractor snap fl) = concat (map plantSamples (wellformed snap))"
  by (simp add: plantExtractor_def extractEach_samples)

lemma val_shootConditionSample: "val (shootConditionSample s c) = conditionValue (cond_status c)"
  by (simp add: shootConditionSample_def)

lemma val_seedConditionSample: "val (seedConditionSample s c) = conditionValue (cond_status c)"
  by (simp add: seedConditionSample_def)

lemma val_plantConditionSample: "val (plantConditionSample p c) = conditionValue (cond_status c)"
  by (simp add: plantConditionSample_def)

lemma shootSamples_condition:
  "x \<in> set (shootSamples sv s) \<Longrightarrow> metric x = metricGardenShootCondition \<Longrightarrow>
     x \<in> shootConditionSample s ` set (shoot_conditions s)"
  by (auto simp: shootSamples_def shootInfoSample_def shootCreationSample_def
      shootHibernatedSample_def shootNodeSamples_def shootOperationSamples_def shootResponseSamples_def
      metric_names split: if_splits option.splits)

lemma seedSamples_condition:
  "x \<in> set (seedSamples s) \<Longrightarrow> metric x = metricGardenSeedCondition \<Longrightarrow>
     x \<in> seedConditionSample s ` set (seed_conditions s)"
  by (auto simp: seedSamples_def seedInfoSample_def metric_names)

lemma plantSamples_condition:
  "x \<in> set (plantSamples p) \<Longrightarrow> metric x = metricGardenPlantCondition \<Longrightarrow>
     x \<in> plantConditionSample p ` set (plant_conditions p)"
  by (auto simp: plantSamples_def plantInfoSample_def metric_names)

lemma shootSamples_condition_val:
  assumes "x \<in> set (shootSamples sv s)" and "metric x = metricGardenShootCondition"
  shows "val x \<in> {-1, 0, 1, 2}"
proof -
  from shootSamples_condition [OF assms] obtain c where "x = shootConditionSample s c" by blast
  then show ?thesis
    using conditionValue_range [of "cond_status c"] by (simp only: val_shootConditionSample)
qed

lemma seedSamples_condition_val:
  assumes "x \<in> set (seedSamples s)" and "metric x = metricGardenSeedCondition"
  shows "val x \<in> {-1, 0, 1, 2}"
proof -
  from seedSamples_condition [OF assms] obtain c where "x = seedConditionSample s c" by blast
  then show ?thesis
    using conditionValue_range [of "cond_status c"] by (simp only: val_seedConditionSample)
qed

lemma plantSamples_condition_val:
  assumes "x \<in> set (plantSamples p)" and "metric x = metricGardenPlantCondition"
  shows "val x \<in> {-1, 0, 1, 2}"
proof -
  from plantSamples_condition [OF assms] obtain c where "x = plantConditionSample p c" by blast
  then show ?thesis
    using conditionValue_range [of "cond_status c"] by (simp only: val_plantConditionSample)
qed

lemma operationsTotal_not_condition:
  "x \<in> set (operationsTotal ss) \<Longrightarrow> metric x \<noteq> metricGardenShootCondition"
  by (auto simp: metric_names dest!: operationsTotal_metric)

text \<open>
  Claim C6. The value of a condition is one of -1, 0, 1, 2 for every status string:
  Unknown is -1, Unhealthy 0, Healthy 1, Progressing 2, and every other string is -1. Every
  Condition of a Shoot, Seed or Plant of the snapshot is emitted with the value of its
  status, and every condition sample the three extractors emit has one of the four values.
\<close>

theorem condition_values_total:
  "conditionValue st \<in> {-1, 0, 1, 2}
   \<and> conditionValue ''Unknown'' = -1 \<and> conditionValue ''Unhealthy'' = 0
   \<and> conditionValue ''Healthy'' = 1 \<and> conditionValue ''Progressing'' = 2
   \<and> (st \<notin> {''Unknown'', ''Unhealthy'', ''Healthy'', ''Progressing''} \<longrightarrow> conditionValue st = -1)
   \<and> (Wellformed sh \<in> set shoots \<and> c \<in> set (shoot_conditions sh) \<longrightarrow>
        shootConditionSample sh c \<in> set (fst (shootExtractor sv shoots fl))
        \<and> val (shootConditionSample sh c) = conditionValue (cond_status c))
   \<and> (Wellformed se \<in> set seeds \<and> c \<in> set (seed_conditions se) \<longrightarrow>
        seedConditionSample se c \<in> set (fst (seedExtractor seeds fl))
        \<and> val (seedConditionSample se c) = conditionValue (cond_status c))
   \<and> (Wellformed pl \<in> set plants \<and> c \<in> set (plant_conditions pl) \<longrightarrow>
        plantConditionSample pl c \<in> set (fst (plantExtractor plants fl))
        \<and> val (plantConditionSample pl c) = conditionValue (cond_status c))
   \<and> (\<forall>x \<in> set (fst (shootExtractor sv shoots fl)).
        metric x = metricGardenShootCondition \<longrightarrow> val x \<in> {-1, 0, 1, 2})
   \<and> (\<forall>x \<in> set (fst (seedExtractor seeds fl)).
        metric x = metricGardenSeedCondition \<longrightarrow> val x \<in> {-1, 0, 1, 2})
   \<and> (\<forall>x \<in> set (fst (plantExtractor plants fl)).
        metric x = metricGardenPlantCondition \<longrightarrow> val x \<in> {-1, 0, 1, 2})"
proof -
  have v: "conditionValue ''Unknown'' = -1 \<and> conditionValue ''Unhealthy'' = 0
      \<and> conditionValue ''Healthy'' = 1 \<and> conditionValue ''Progressing'' = 2"
    by (simp add: conditionValue_def parseStatus_def)
  have u: "st \<notin> {''Unknown'', ''Unhealthy'', ''Healthy'', ''Progressing''} \<longrightarrow> conditionValue st = -1"
    by (simp add: conditionValue_def parseStatus_def)
  have s1: "shootConditionSample sh c \<in> set (fst (shootExtractor sv shoots fl))
        \<and> val (shootConditionSample sh c) = conditionValue (cond_status c)"
    if "Wellformed sh \<in> set shoots" "c \<in> set (shoot_conditions sh)"
  proof -
    from that(1) have "sh \<in> set (wellformed shoots)" by (simp add: wellformed_set)
    moreover from that(2) have "shootConditionSample sh c \<in> set (shootSamples sv sh)"
      by (simp add: shootSamples_def)
    ultimately show ?thesis
      by (auto simp: shootExtractor_samples shootConditionSample_def)
  qed
  have s2: "seedConditionSample se c \<in> set (fst (seedExtractor seeds fl))
        \<and> val (seedConditionSample se c) = conditionValue (cond_status c)"
    if "Wellformed se \<in> set seeds" "c \<in> set (seed_conditions se)"
  proof -
    from that(1) have "se \<in> set (wellformed seeds)" by (simp add: wellformed_set)
    moreover from that(2) have "seedConditionSample se c \<in> set (seedSamples se)"
      by (simp add: seedSamples_def)
    ultimately show ?thesis
      by (auto simp: seedExtractor_samples seedConditionSample_def)
  qed
  have s3: "plantConditionSample pl c \<in> set (fst (plantExtractor plants fl))
        \<and> val (plantConditionSample pl c) = conditionValue (cond_status c)"
    if "Wellformed pl \<in> set plants" "c \<in> set (plant_conditions pl)"
  proof -
    from that(1) have "pl \<in> set (wellformed plants)" by (simp add: wellformed_set)
    moreover from that(2) have "plantConditionSample pl c \<in> set (plantSamples pl)"
      by (simp add: plantSamples_def)
    ultimately show ?thesis
      by (auto simp: plantExtractor_samples plantConditionSample_def)
  qed
  have r1: "\<forall>x \<in> set (fst (shootExtractor sv shoots fl)).
        metric x = metricGardenShootCondition \<longrightarrow> val x \<in> {-1, 0, 1, 2}"
    using shootSamples_condition_val operationsTotal_not_condition
    by (fastforce simp: shootExtractor_samples)
  have r2: "\<forall>x \<in> set (fst (seedExtractor seeds fl)).
        metric x = metricGardenSeedCondition \<longrightarrow> val x \<in> {-1, 0, 1, 2}"
    using seedSamples_condition_val by (fastforce simp: seedExtractor_samples)
  have r3: "\<forall>x \<in> set (fst (plantExtractor plants fl)).
        metric x = metricGardenPlantCondition \<longrightarrow> val x \<in> {-1, 0, 1, 2}"
    using plantSamples_condition_val by (fastforce simp: plantExtractor_samples)
  from conditionValue_range [of st] v u s1 s2 s3 r1 r2 r3 show ?thesis by blast
qed

theorem condition_values_total_witness:
  "conditionValue ''Degraded'' = -1
   \<and> shootConditionSample (exampleShoot ''a'' False exampleConditions)
        \<lparr>cond_name = ''EveryNodeReady'', cond_status = ''Degraded''\<rparr>
        \<in> set (fst (shootExtractor (\<lambda>st. 0)
            [Wellformed (exampleShoot ''a'' False exampleConditions)] noFailures))
   \<and> val (shootConditionSample (exampleShoot ''a'' False exampleConditions)
        \<lparr>cond_name = ''EveryNodeReady'', cond_status = ''Degraded''\<rparr>) = -1
   \<and> seedConditionSample (exampleSeed ''s'')
        \<lparr>cond_name = ''GardenletReady'', cond_status = ''Progressing''\<rparr>
        \<in> set (fst (seedExtractor [Wellformed (exampleSeed ''s'')] noFailures))
   \<and> val (seedConditionSample (exampleSeed ''s'')
        \<lparr>cond_name = ''GardenletReady'', cond_status = ''Progressing''\<rparr>) = 2
   \<and> plantConditionSample (examplePlant ''p'')
        \<lparr>cond_name = ''APIServerAvailable'', cond_status = ''Healthy''\<rparr>
        \<in> set (fst (plantExtractor [Wellformed (examplePlant ''p'')] noFailures))
   \<and> val (plantConditionSample (examplePlant ''p'')
        \<lparr>cond_name = ''APIServerAvailable'', cond_status = ''Healthy''\<rparr>) = 1"
proof -
  let ?a = "exampleShoot ''a'' False exampleConditions"
  let ?c = "\<lparr>cond_name = ''EveryNodeReady'', cond_status = ''Degraded''\<rparr>"
  let ?s = "exampleSeed ''s''"
  let ?cs = "\<lparr>cond_name = ''GardenletReady'', cond_status = ''Progressing''\<rparr>"
  let ?p = "examplePlant ''p''"
  let ?cp = "\<lparr>cond_name = ''APIServerAvailable'', cond_status = ''Healthy''\<rparr>"
  have n: "''Degraded'' \<notin> {''Unknown'', ''Unhealthy'', ''Healthy'', ''Progressing''}" by simp
  have m: "Wellformed ?a \<in> set [Wellformed ?a]" "Wellformed ?s \<in> set [Wellformed ?s]"
    "Wellformed ?p \<in> set [Wellformed ?p]"
    by simp_all
  have c: "?c \<in> set (shoot_conditions ?a)" by (simp add: exampleShoot_def exampleConditions_def)
  have cs: "?cs \<in> set (seed_conditions ?s)" by (simp add: exampleSeed_def)
  have cp: "?cp \<in> set (plant_conditions ?p)" by (simp add: examplePlant_def)
  note t1 = condition_values_total [of "''Degraded''" ?a "[Wellformed ?a]" ?c "\<lambda>st. 0" noFailures
      ?s "[Wellformed ?s]" ?p "[Wellformed ?p]"]
  note t2 = condition_values_total [of "''Degraded''" ?a "[Wellformed ?a]" ?cs "\<lambda>st. 0" noFailures
      ?s "[Wellformed ?s]" ?p "[Wellformed ?p]"]
  note t3 = condition_values_total [of "''Degraded''" ?a "[Wellformed ?a]" ?cp "\<lambda>st. 0" noFailures
      ?s "[Wellformed ?s]" ?p "[Wellformed ?p]"]
  from t1 n have v: "conditionValue ''Degraded'' = -1" by blast
  from t1 have v2: "conditionValue ''Progressing'' = 2" and v1: "conditionValue ''Healthy'' = 1"
    by blast+
  from t1 m c have "shootConditionSample ?a ?c \<in> set (fst (shootExtractor (\<lambda>st. 0) [Wellformed ?a] noFailures))
        \<and> val (shootConditionSample ?a ?c) = conditionValue (cond_status ?c)"
    by blast
  with v have a: "shootConditionSample ?a ?c \<in> set (fst (shootExtractor (\<lambda>st. 0) [Wellformed ?a] noFailures))
        \<and> val (shootConditionSample ?a ?c) = -1"
    by simp
  from t2 m cs have "seedConditionSample ?s ?cs \<in> set (fst (seedExtractor [Wellformed ?s] noFailures))
        \<and> val (seedConditionSample ?s ?cs) = conditionValue (cond_status ?cs)"
    by blast
  with v2 have b: "seedConditionSample ?s ?cs \<in> set (fst (seedExtractor [Wellformed ?s] noFailures))
        \<and> val (seedConditionSample ?s ?cs) = 2"
    by simp
  from t3 m cp have "plantConditionSample ?p ?cp \<in> set (fst (plantExtractor [Wellformed ?p] noFailures))
        \<and> val (plantConditionSample ?p ?cp) = conditionValue (cond_status ?cp)"
    by blast
  with v1 have d: "plantConditionSample ?p ?cp \<in> set (fst (plantExtractor [Wellformed ?p] noFailures))
        \<and> val (plantConditionSample ?p ?cp) = 1"
    by simp
  from v a b d show ?thesis by blast
qed

lemma filter_info_shootSamples:
  "filter (\<lambda>x. metric x = metricGardenShootInfo) (shootSamples sv s) = [shootInfoSample s]"
  by (auto simp: shootSamples_def shootConditionSample_def shootInfoSample_def shootCreationSample_def
      shootHibernatedSample_def shootNodeSamples_def shootOperationSamples_def shootResponseSamples_def
      metric_names filter_empty_conv split: option.splits)

lemma filter_info_concat:
  "filter (\<lambda>x. metric x = metricGardenShootInfo) (concat (map (shootSamples sv) ss)) = map shootInfoSample ss"
  by (induction ss) (simp_all add: filter_info_shootSamples)

lemma filter_info_operationsTotal:
  "filter (\<lambda>x. metric x = metricGardenShootInfo) (operationsTotal ss) = []"
  by (auto simp: filter_empty_conv metric_names dest!: operationsTotal_metric)

lemma filter_info_extractor:
  "filter (\<lambda>x. metric x = metricGardenShootInfo) (fst (shootExtractor sv snap fl))
     = map shootInfoSample (wellformed snap)"
  by (simp add: shootExtractor_samples filter_info_concat filter_info_operationsTotal)

lemma one_with_key:
  "distinct (map f ws) \<Longrightarrow> s \<in> set ws \<Longrightarrow> length (filter (\<lambda>t. f t = f s) ws) = 1"
proof (induction ws)
  case Nil then show ?case by simp
next
  case (Cons w ws)
  show ?case
  proof (cases "f w = f s")
    case True
    with Cons.prems have "\<forall>t \<in> set ws. f t \<noteq> f s" by (metis distinct.simps(2) image_eqI list.simps(9) set_map)
    then have "filter (\<lambda>t. f t = f s) ws = []" by (simp add: filter_empty_conv)
    with True show ?thesis by simp
  next
    case False
    with Cons show ?thesis by auto
  qed
qed

text \<open>
  Claim C8. The samples of one Shoot hold exactly one \<open>shoot_info\<close> sample, of value 1,
  whatever conditions the Shoot carries; the \<open>shoot_info\<close> samples of a scrape are one per
  Shoot of the snapshot, in order, and when the Shoots of the snapshot have distinct
  identities (name and project), exactly one of them carries the identity of a given Shoot.
\<close>

theorem shoot_info_once:
  "filter (\<lambda>x. metric x = metricGardenShootInfo) (shootSamples sv s) = [shootInfoSample s]
   \<and> val (shootInfoSample s) = 1
   \<and> filter (\<lambda>x. metric x = metricGardenShootInfo) (shootSamples sv (s\<lparr>shoot_conditions := cs\<rparr>))
       = [shootInfoSample s]
   \<and> filter (\<lambda>x. metric x = metricGardenShootInfo) (fst (shootExtractor sv snap fl))
       = map shootInfoSample (wellformed snap)
   \<and> (distinct (map (\<lambda>t. (shoot_name t, shoot_project t)) (wellformed snap))
        \<and> Wellformed s \<in> set snap \<longrightarrow>
      length (filter (\<lambda>x. metric x = metricGardenShootInfo
                        \<and> take 2 (labelValues x) = [shoot_name s, shoot_project s])
                (fst (shootExtractor sv snap fl))) = 1)"
proof -
  have a: "filter (\<lambda>x. metric x = metricGardenShootInfo) (shootSamples sv (s\<lparr>shoot_conditions := cs\<rparr>))
       = [shootInfoSample s]"
    by (simp add: filter_info_shootSamples) (simp add: shootInfoSample_def)
  have b: "length (filter (\<lambda>x. metric x = metricGardenShootInfo
                        \<and> take 2 (labelValues x) = [shoot_name s, shoot_project s])
                (fst (shootExtractor sv snap fl))) = 1"
    if d: "distinct (map (\<lambda>t. (shoot_name t, shoot_project t)) (wellformed snap))"
      and m: "Wellformed s \<in> set snap"
  proof -
    let ?out = "fst (shootExtractor sv snap fl)"
    have "filter (\<lambda>x. metric x = metricGardenShootInfo
                        \<and> take 2 (labelValues x) = [shoot_name s, shoot_project s]) ?out
        = filter (\<lambda>x. take 2 (labelValues x) = [shoot_name s, shoot_project s])
            (filter (\<lambda>x. metric x = metricGardenShootInfo) ?out)"
      by (simp add: conj_commute)
    also have "\<dots> = filter (\<lambda>x. take 2 (labelValues x) = [shoot_name s, shoot_project s])
            (map shootInfoSample (wellformed snap))"
      by (simp add: filter_info_extractor)
    also have "\<dots> = map shootInfoSample
        (filter (\<lambda>t. (shoot_name t, shoot_project t) = (shoot_name s, shoot_project s)) (wellformed snap))"
      by (simp add: filter_map o_def shootInfoSample_def)
    finally have "length (filter (\<lambda>x. metric x = metricGardenShootInfo
                        \<and> take 2 (labelValues x) = [shoot_name s, shoot_project s]) ?out)
        = length (filter (\<lambda>t. (shoot_name t, shoot_project t) = (shoot_name s, shoot_project s)) (wellformed snap))"
      by simp
    also have "\<dots> = 1"
      using one_with_key [OF d, of s] m by (simp add: wellformed_set)
    finally show ?thesis .
  qed
  from filter_info_shootSamples [of sv s] a filter_info_extractor [of sv snap fl] b
  show ?thesis by (simp add: shootInfoSample_def)
qed

theorem shoot_info_once_witness:
  "distinct (map (\<lambda>t. (shoot_name t, shoot_project t))
      (wellformed [Wellformed (exampleShoot ''a'' False exampleConditions),
                   Wellformed (exampleShoot ''b'' True [])]))
   \<and> length (filter (\<lambda>x. metric x = metricGardenShootInfo
                \<and> take 2 (labelValues x) = [''a'', ''garden-dev''])
        (fst (shootExtractor (\<lambda>st. 0)
           [Wellformed (exampleShoot ''a'' False exampleConditions),
            Wellformed (exampleShoot ''b'' True [])] noFailures))) = 1
   \<and> length (filter (\<lambda>x. metric x = metricGardenShootInfo
                \<and> take 2 (labelValues x) = [''b'', ''garden-dev''])
        (fst (shootExtractor (\<lambda>st. 0)
           [Wellformed (exampleShoot ''a'' False exampleConditions),
            Wellformed (exampleShoot ''b'' True [])] noFailures))) = 1"
proof -
  let ?a = "exampleShoot ''a'' False exampleConditions" and ?b = "exampleShoot ''b'' True []"
  let ?snap = "[Wellformed ?a, Wellformed ?b]"
  have d: "distinct (map (\<lambda>t. (shoot_name t, shoot_project t)) (wellformed ?snap))"
    by (simp add: exampleShoot_def)
  have na: "shoot_name ?a = ''a''" "shoot_project ?a = ''garden-dev''"
    and nb: "shoot_name ?b = ''b''" "shoot_project ?b = ''garden-dev''"
    by (simp_all add: exampleShoot_def)
  from shoot_info_once [of "\<lambda>st. 0" ?a "[]" ?snap noFailures] d
  have a: "length (filter (\<lambda>x. metric x = metricGardenShootInfo
                \<and> take 2 (labelValues x) = [shoot_name ?a, shoot_project ?a])
        (fst (shootExtractor (\<lambda>st. 0) ?snap noFailures))) = 1"
    by simp
  from shoot_info_once [of "\<lambda>st. 0" ?b "[]" ?snap noFailures] d
  have b: "length (filter (\<lambda>x. metric x = metricGardenShootInfo
                \<and> take 2 (labelValues x) = [shoot_name ?b, shoot_project ?b])
        (fst (shootExtractor (\<lambda>st. 0) ?snap noFailures))) = 1"
    by simp
  from d a b show ?thesis unfolding na nb by simp
qed

end
